theory Spec2Isabelle
  imports Main
begin

section \<open>JavaScript strings\<close>

text \<open>
  A JavaScript string is a sequence of UTF-16 code units; a code unit is modelled as a
  integer. \<open>js\<close> turns an Isabelle literal into such a sequence, so that the
  literals of \<^verbatim>\<open>chatbot.js\<close> can be written as they stand in the source.
\<close>

type_synonym jsstring = "int list"

definition js :: "string \<Rightarrow> jsstring" where
  "js s = map of_char s"

text \<open>
  The characters matched by \<^verbatim>\<open>\s\<close> in a regular expression and removed by
  \<^verbatim>\<open>String.prototype.trim\<close>: WhiteSpace and LineTerminator of ECMAScript (tab to
  carriage return, space, U+00A0, U+1680, U+2000 to U+200A, U+2028, U+2029, U+202F,
  U+205F, U+3000, U+FEFF).
\<close>

definition inRange :: "int \<Rightarrow> int \<Rightarrow> int \<Rightarrow> bool" where
  "inRange lo hi c \<longleftrightarrow> lo \<le> c \<and> c \<le> hi"

definition isWhiteSpace :: "int \<Rightarrow> bool" where
  "isWhiteSpace c \<longleftrightarrow>
     inRange 9 13 c \<or> c = 32 \<or> c = 160 \<or> c = 5760 \<or> inRange 8192 8202 c
     \<or> c = 8232 \<or> c = 8233 \<or> c = 8239 \<or> c = 8287 \<or> c = 12288 \<or> c = 65279"

fun startsWith :: "jsstring \<Rightarrow> jsstring \<Rightarrow> bool" where
  "startsWith s [] = True"
| "startsWith [] (p # ps) = False"
| "startsWith (c # cs) (p # ps) = (c = p \<and> startsWith cs ps)"

text \<open>\<^verbatim>\<open>s.includes(p)\<close>: \<open>p\<close> occurs in \<open>s\<close> as a contiguous run.\<close>

fun includes_str :: "jsstring \<Rightarrow> jsstring \<Rightarrow> bool" where
  "includes_str [] p = (p = [])"
| "includes_str (c # cs) p = (startsWith (c # cs) p \<or> includes_str cs p)"

definition trim :: "jsstring \<Rightarrow> jsstring" where
  "trim s = rev (dropWhile isWhiteSpace (rev (dropWhile isWhiteSpace s)))"

section \<open>The two directive patterns\<close>

text \<open>
  Both directives are found with a regular expression of one shape,
  \<^verbatim>\<open>/MARKER:\s*(\{[^}]+\})/\<close>, where MARKER is \<^verbatim>\<open>TOOL_CALL\<close> or
  \<^verbatim>\<open>ACTION_COMMAND\<close>. After the marker the pattern has no choice point: \<^verbatim>\<open>\s*\<close>
  takes every white-space character (the next one must be an opening brace, which is not
  white space), \<^verbatim>\<open>[^}]+\<close> takes every character up to the next closing brace (at
  least one), and that closing brace ends the match. \<open>matchPayload\<close> is given the text
  after the marker and returns capture group 1 and the text after the match.
\<close>

definition matchPayload :: "jsstring \<Rightarrow> (jsstring \<times> jsstring) option" where
  "matchPayload s =
     (case dropWhile isWhiteSpace s of
        [] \<Rightarrow> None
      | c # r \<Rightarrow>
          if c \<noteq> 123 then None
          else (let body = takeWhile (\<lambda>x. x \<noteq> 125) r in
                if body = [] then None
                else (case dropWhile (\<lambda>x. x \<noteq> 125) r of
                        [] \<Rightarrow> None
                      | _ # after \<Rightarrow> Some (123 # body @ [125], after))))"

definition matchAt :: "jsstring \<Rightarrow> jsstring \<Rightarrow> (jsstring \<times> jsstring) option" where
  "matchAt marker s =
     (if startsWith s marker then matchPayload (drop (length marker) s) else None)"

text \<open>
  \<^verbatim>\<open>text.match(re)\<close> without the \<^verbatim>\<open>g\<close> flag: the leftmost position where the
  pattern matches; the result is capture group 1 (\<^verbatim>\<open>match[1]\<close>).
\<close>

fun regexMatch :: "jsstring \<Rightarrow> jsstring \<Rightarrow> jsstring option" where
  "regexMatch marker [] = None"
| "regexMatch marker (c # cs) =
     (case matchAt marker (c # cs) of
        Some (cap, after) \<Rightarrow> Some cap
      | None \<Rightarrow> regexMatch marker cs)"

lemma matchPayload_shorter:
  "matchPayload s = Some (cap, after) \<Longrightarrow> length after < length s"
proof -
  assume a: "matchPayload s = Some (cap, after)"
  obtain c r where d: "dropWhile isWhiteSpace s = c # r"
    using a by (cases "dropWhile isWhiteSpace s") (auto simp: matchPayload_def)
  have "\<exists>x. dropWhile (\<lambda>x. x \<noteq> 125) r = x # after"
    using a d
    by (simp add: matchPayload_def Let_def split: if_splits list.splits)
  then obtain x where r: "dropWhile (\<lambda>x. x \<noteq> 125) r = x # after" ..
  have "length after < length r"
    using length_dropWhile_le [of "\<lambda>x. x \<noteq> 125" r] r by simp
  moreover have "length r < length s"
    using length_dropWhile_le [of isWhiteSpace s] d by simp
  ultimately show ?thesis by simp
qed

lemma matchAt_shorter:
  "matchAt marker s = Some (cap, after) \<Longrightarrow> length after < length s"
  by (auto simp: matchAt_def split: if_splits dest!: matchPayload_shorter)

text \<open>
  \<^verbatim>\<open>text.replace(/MARKER:\s*\{[^}]+\}\s*/g, '')\<close>: every match, with the white space
  after it, is removed; the search resumes where the removed match ended.
\<close>

function replaceAll :: "jsstring \<Rightarrow> jsstring \<Rightarrow> jsstring" where
  "replaceAll marker [] = []"
| "replaceAll marker (c # cs) =
     (case matchAt marker (c # cs) of
        Some (cap, after) \<Rightarrow> replaceAll marker (dropWhile isWhiteSpace after)
      | None \<Rightarrow> c # replaceAll marker cs)"
  by pat_completeness auto
termination
proof (relation "measure (\<lambda>(marker, s). length s)")
  fix marker :: jsstring and c cs x2 cap after
  assume "matchAt marker (c # cs) = Some x2" and "(cap, after) = x2"
  then have "length after < length (c # cs)"
    using matchAt_shorter [of marker "c # cs" cap after] by simp
  moreover have "length (dropWhile isWhiteSpace after) \<le> length after"
    by (rule length_dropWhile_le)
  ultimately show "((marker, dropWhile isWhiteSpace after), marker, c # cs)
      \<in> measure (\<lambda>(marker, s). length s)"
    by simp
qed simp_all

section \<open>JSON.parse\<close>

text \<open>
  The values \<^verbatim>\<open>JSON.parse\<close> produces. A number keeps the text of its literal: its
  IEEE-754 value is not computed. An object keeps its members in source order; a later
  member overrides an earlier one of the same name when a property is read.
\<close>

datatype json =
    JNull
  | JBool bool
  | JNumber jsstring
  | JString jsstring
  | JArray "json list"
  | JObject "(jsstring \<times> json) list"

datatype token =
    TLBrace | TRBrace | TLBrack | TRBrack | TColon | TComma
  | TString jsstring | TNumber jsstring | TTrue | TFalse | TNull

definition isDigit :: "int \<Rightarrow> bool" where
  "isDigit c \<longleftrightarrow> 48 \<le> c \<and> c \<le> 57"

definition hexval :: "int \<Rightarrow> int option" where
  "hexval c =
     (if 48 \<le> c \<and> c \<le> 57 then Some (c - 48)
      else if 97 \<le> c \<and> c \<le> 102 then Some (c - 87)
      else if 65 \<le> c \<and> c \<le> 70 then Some (c - 55)
      else None)"

text \<open>The single-character escapes of a JSON string: the character after the backslash.\<close>

definition unescape :: "int \<Rightarrow> int option" where
  "unescape e =
     (if e = 34 then Some 34 else if e = 92 then Some 92 else if e = 47 then Some 47
      else if e = 98 then Some 8 else if e = 102 then Some 12 else if e = 110 then Some 10
      else if e = 114 then Some 13 else if e = 116 then Some 9 else None)"

definition consChar :: "int \<Rightarrow> (jsstring \<times> jsstring) option \<Rightarrow> (jsstring \<times> jsstring) option" where
  "consChar c r = (case r of None \<Rightarrow> None | Some (s, rest) \<Rightarrow> Some (c # s, rest))"

text \<open>
  \<open>lexString\<close> reads a string literal after its opening quote and returns the decoded
  contents and the text after the closing quote.
\<close>

fun lexString :: "jsstring \<Rightarrow> (jsstring \<times> jsstring) option" where
  "lexString [] = None"
| "lexString [c] = (if c = 34 then Some ([], []) else None)"
| "lexString (c # e # cs) =
     (if c = 34 then Some ([], e # cs)
      else if c = 92 then
        (if e = 117 then
           (case cs of
              h1 # h2 # h3 # h4 # cs2 \<Rightarrow>
                (case hexval h1 of None \<Rightarrow> None | Some a \<Rightarrow>
                 case hexval h2 of None \<Rightarrow> None | Some b \<Rightarrow>
                 case hexval h3 of None \<Rightarrow> None | Some c' \<Rightarrow>
                 case hexval h4 of None \<Rightarrow> None | Some d \<Rightarrow>
                   consChar (a * 4096 + b * 256 + c' * 16 + d) (lexString cs2))
            | _ \<Rightarrow> None)
         else (case unescape e of
                 None \<Rightarrow> None
               | Some d \<Rightarrow> consChar d (lexString cs)))
      else if c < 32 then None
      else consChar c (lexString (e # cs)))"

definition lexExponent :: "jsstring \<Rightarrow> jsstring \<times> jsstring" where
  "lexExponent s =
     (case s of
        [] \<Rightarrow> ([], s)
      | e # r \<Rightarrow>
          if e = 101 \<or> e = 69 then
            (let (sg, r1) = (case r of
                               [] \<Rightarrow> ([], r)
                             | c # r2 \<Rightarrow> if c = 43 \<or> c = 45 then ([c], r2) else ([], r))
             in case r1 of
                  [] \<Rightarrow> ([], s)
                | d # r3 \<Rightarrow>
                    if isDigit d
                    then (e # sg @ d # takeWhile isDigit r3, dropWhile isDigit r3)
                    else ([], s))
          else ([], s))"

definition lexFraction :: "jsstring \<Rightarrow> jsstring \<times> jsstring" where
  "lexFraction s =
     (case s of
        p # f # r \<Rightarrow>
          if p = 46 \<and> isDigit f
          then (p # f # takeWhile isDigit r, dropWhile isDigit r)
          else ([], s)
      | _ \<Rightarrow> ([], s))"

text \<open>
  \<open>lexNumber\<close> reads the longest prefix that is a JSON number: an optional minus, an
  integer part without a leading zero (or the single digit 0), an optional fraction, an
  optional exponent.
\<close>

definition lexNumber :: "jsstring \<Rightarrow> (jsstring \<times> jsstring) option" where
  "lexNumber s =
     (let (sign, s1) = (case s of
                          [] \<Rightarrow> ([], s)
                        | c # r \<Rightarrow> if c = 45 then ([45], r) else ([], s))
      in case s1 of
           [] \<Rightarrow> None
         | d # r1 \<Rightarrow>
             if \<not> isDigit d then None
             else (let (ip, s2) = (if d = 48 then ([48], r1)
                                   else (d # takeWhile isDigit r1, dropWhile isDigit r1));
                       (fp, s3) = lexFraction s2;
                       (ep, s4) = lexExponent s3
                   in Some (sign @ ip @ fp @ ep, s4)))"

definition consTok :: "token \<Rightarrow> token list option \<Rightarrow> token list option" where
  "consTok t r = (case r of None \<Rightarrow> None | Some ts \<Rightarrow> Some (t # ts))"

lemma consChar_shorter:
  "consChar c r = Some (s, rest) \<Longrightarrow> \<exists>s'. r = Some (s', rest)"
  by (cases r) (auto simp: consChar_def)

lemma lexString_shorter:
  "lexString cs = Some (s, rest) \<Longrightarrow> length rest < length cs"
proof (induction cs arbitrary: s rule: lexString.induct)
  case 1
  then show ?case by simp
next
  case (2 c)
  then show ?case by (simp split: if_splits)
next
  case (3 c e cs)
  show ?case
  proof (cases "c = 34")
    case True
    with 3 show ?thesis by simp
  next
    case notq: False
    show ?thesis
    proof (cases "c = 92")
      case bs: True
      show ?thesis
      proof (cases "e = 117")
        case u: True
        from 3(4) notq bs u obtain h1 h2 h3 h4 cs2 a b c' d where
          cs: "cs = h1 # h2 # h3 # h4 # cs2" and
          h: "hexval h1 = Some a" "hexval h2 = Some b" "hexval h3 = Some c'"
             "hexval h4 = Some d" and
          r: "consChar (a * 4096 + b * 256 + c' * 16 + d) (lexString cs2) = Some (s, rest)"
          by (auto split: list.splits option.splits)
        from r obtain s' where "lexString cs2 = Some (s', rest)"
          by (blast dest: consChar_shorter)
        with 3(1) [OF notq bs u cs refl refl refl h] have "length rest < length cs2" by simp
        with cs show ?thesis by simp
      next
        case nu: False
        from 3(4) notq bs nu obtain d where
          d: "unescape e = Some d" and
          r: "consChar d (lexString cs) = Some (s, rest)"
          by (auto split: option.splits)
        from r obtain s' where "lexString cs = Some (s', rest)"
          by (blast dest: consChar_shorter)
        with 3(2) [OF notq bs nu d] have "length rest < length cs" by simp
        then show ?thesis by simp
      qed
    next
      case nbs: False
      from 3(4) notq nbs have c32: "\<not> c < 32" and
        r: "consChar c (lexString (e # cs)) = Some (s, rest)"
        by (auto split: if_splits)
      from r obtain s' where "lexString (e # cs) = Some (s', rest)"
        by (blast dest: consChar_shorter)
      with 3(3) [OF notq nbs c32] have "length rest < length (e # cs)" by simp
      then show ?thesis by simp
    qed
  qed
qed

lemma lexExponent_shorter: "lexExponent s = (ep, rest) \<Longrightarrow> length rest \<le> length s"
proof -
  have d: "length (dropWhile isDigit r) \<le> length r" for r
    by (rule length_dropWhile_le)
  assume "lexExponent s = (ep, rest)"
  then show ?thesis
    using d
    by (auto simp: lexExponent_def Let_def le_SucI
             split: list.splits if_splits prod.splits)
qed

lemma lexFraction_shorter: "lexFraction s = (fp, rest) \<Longrightarrow> length rest \<le> length s"
proof -
  have d: "length (dropWhile isDigit r) \<le> length r" for r
    by (rule length_dropWhile_le)
  assume "lexFraction s = (fp, rest)"
  then show ?thesis
    using d
    by (auto simp: lexFraction_def le_SucI split: list.splits if_splits)
qed

lemma lexNumber_shorter:
  "lexNumber s = Some (n, rest) \<Longrightarrow> length rest < length s"
proof -
  assume a: "lexNumber s = Some (n, rest)"
  obtain sign s1 where s1: "(case s of [] \<Rightarrow> ([], s)
      | c # r \<Rightarrow> if c = 45 then ([45::int], r) else ([], s)) = (sign, s1)"
    by (cases "case s of [] \<Rightarrow> ([], s)
      | c # r \<Rightarrow> if c = 45 then ([45::int], r) else ([], s)")
  have l1: "length s1 \<le> length s"
    using s1 by (auto split: list.splits if_splits)
  from a s1 obtain d r1 where s1c: "s1 = d # r1" and dd: "isDigit d"
    by (cases s1) (auto simp: lexNumber_def split: if_splits)
  obtain ip s2 where ip: "(if d = 48 then ([48::int], r1)
      else (d # takeWhile isDigit r1, dropWhile isDigit r1)) = (ip, s2)"
    by (cases "if d = 48 then ([48::int], r1)
      else (d # takeWhile isDigit r1, dropWhile isDigit r1)")
  have l2: "length s2 \<le> length r1"
    using ip length_dropWhile_le [of isDigit r1] by (auto split: if_splits)
  obtain fp s3 where fp: "lexFraction s2 = (fp, s3)"
    by (cases "lexFraction s2")
  obtain ep s4 where ep: "lexExponent s3 = (ep, s4)"
    by (cases "lexExponent s3")
  from a s1 s1c dd ip fp ep have "rest = s4"
    by (simp add: lexNumber_def)
  moreover have "length s4 \<le> length s3"
    using ep by (rule lexExponent_shorter)
  moreover have "length s3 \<le> length s2"
    using fp by (rule lexFraction_shorter)
  ultimately show ?thesis
    using l1 l2 s1c by simp
qed

text \<open>
  The tokens of a JSON text. JSON white space is space, tab, line feed and carriage
  return only.
\<close>

function lex :: "jsstring \<Rightarrow> token list option" where
  "lex [] = Some []"
| "lex (c # cs) =
     (if c = 32 \<or> c = 9 \<or> c = 10 \<or> c = 13 then lex cs
      else if c = 123 then consTok TLBrace (lex cs)
      else if c = 125 then consTok TRBrace (lex cs)
      else if c = 91 then consTok TLBrack (lex cs)
      else if c = 93 then consTok TRBrack (lex cs)
      else if c = 58 then consTok TColon (lex cs)
      else if c = 44 then consTok TComma (lex cs)
      else if c = 34 then
        (case lexString cs of
           None \<Rightarrow> None
         | Some (s, rest) \<Rightarrow> consTok (TString s) (lex rest))
      else if c = 45 \<or> isDigit c then
        (case lexNumber (c # cs) of
           None \<Rightarrow> None
         | Some (n, rest) \<Rightarrow> consTok (TNumber n) (lex rest))
      else if startsWith (c # cs) (js ''true'') then consTok TTrue (lex (drop 3 cs))
      else if startsWith (c # cs) (js ''false'') then consTok TFalse (lex (drop 4 cs))
      else if startsWith (c # cs) (js ''null'') then consTok TNull (lex (drop 3 cs))
      else None)"
  by pat_completeness auto
termination
proof (relation "measure length")
  fix c :: int and cs x2 s rest
  assume "lexString cs = Some x2" and "(s, rest) = x2"
  then have "length rest < length cs"
    using lexString_shorter [of cs s rest] by simp
  then show "(rest, c # cs) \<in> measure length" by simp
next
  fix c :: int and cs x2 n rest
  assume "lexNumber (c # cs) = Some x2" and "(n, rest) = x2"
  then have "length rest < length (c # cs)"
    using lexNumber_shorter [of "c # cs" n rest] by simp
  then show "(rest, c # cs) \<in> measure length" by simp
qed simp_all

text \<open>
  The grammar of JSON values over the tokens, as a machine with a stack of the arrays
  and objects that are still open. \<open>parseValue\<close> expects a value, \<open>parseKey\<close> a member
  name and its colon, \<open>parseAfter\<close> has just completed the value \<open>v\<close> and expects a
  comma, the end of the innermost open array or object, or with nothing open the end of
  the text.
\<close>

definition nextIs :: "token \<Rightarrow> token list \<Rightarrow> bool" where
  "nextIs t ts = (case ts of [] \<Rightarrow> False | x # xs \<Rightarrow> x = t)"

datatype frame =
    InArray "json list"
  | InObject "(jsstring \<times> json) list" jsstring

fun parseValue :: "frame list \<Rightarrow> token list \<Rightarrow> json option"
  and parseKey :: "(jsstring \<times> json) list \<Rightarrow> frame list \<Rightarrow> token list \<Rightarrow> json option"
  and parseAfter :: "json \<Rightarrow> frame list \<Rightarrow> token list \<Rightarrow> json option"
where
  "parseValue st [] = None"
| "parseValue st (t # ts) =
     (case t of
        TString s \<Rightarrow> parseAfter (JString s) st ts
      | TNumber n \<Rightarrow> parseAfter (JNumber n) st ts
      | TTrue \<Rightarrow> parseAfter (JBool True) st ts
      | TFalse \<Rightarrow> parseAfter (JBool False) st ts
      | TNull \<Rightarrow> parseAfter JNull st ts
      | TLBrack \<Rightarrow>
          (if nextIs TRBrack ts then parseAfter (JArray []) st (tl ts)
           else parseValue (InArray [] # st) ts)
      | TLBrace \<Rightarrow>
          (if nextIs TRBrace ts then parseAfter (JObject []) st (tl ts)
           else parseKey [] st ts)
      | _ \<Rightarrow> None)"
| "parseKey acc st [] = None"
| "parseKey acc st [t] = None"
| "parseKey acc st (t # t' # ts) =
     (case (t, t') of
        (TString k, TColon) \<Rightarrow> parseValue (InObject acc k # st) ts
      | _ \<Rightarrow> None)"
| "parseAfter v [] ts = (if ts = [] then Some v else None)"
| "parseAfter v (f # st) [] = None"
| "parseAfter v (f # st) (t # ts) =
     (case (f, t) of
        (InArray acc, TComma) \<Rightarrow> parseValue (InArray (acc @ [v]) # st) ts
      | (InArray acc, TRBrack) \<Rightarrow> parseAfter (JArray (acc @ [v])) st ts
      | (InObject acc k, TComma) \<Rightarrow> parseKey (acc @ [(k, v)]) st ts
      | (InObject acc k, TRBrace) \<Rightarrow> parseAfter (JObject (acc @ [(k, v)])) st ts
      | _ \<Rightarrow> None)"

definition JSON_parse :: "jsstring \<Rightarrow> json option" where
  "JSON_parse s = (case lex s of None \<Rightarrow> None | Some ts \<Rightarrow> parseValue [] ts)"

text \<open>
  Reading a property of a parsed value. For a member of an object the last member of
  that name is the one \<^verbatim>\<open>JSON.parse\<close> keeps. \<open>None\<close> is \<^verbatim>\<open>undefined\<close>: the names
  read in \<^verbatim>\<open>chatbot.js\<close> (\<^verbatim>\<open>tool\<close>, \<^verbatim>\<open>params\<close>, \<^verbatim>\<open>period\<close>,
  \<^verbatim>\<open>projectName\<close>, \<^verbatim>\<open>topic\<close>) are inherited by no object, array, string, number or
  boolean. Reading a property of \<^verbatim>\<open>null\<close> throws; the callers below treat that case
  before they call \<open>getProp\<close>.
\<close>

fun getProp :: "json \<Rightarrow> jsstring \<Rightarrow> json option" where
  "getProp (JObject ms) k = map_of (rev ms) k"
| "getProp v k = None"

text \<open>
  Truthiness of a parsed value. Whether a number literal denotes zero after rounding to
  a double is not computed here; it is the parameter \<open>isZero\<close>.
\<close>

fun truthy :: "(jsstring \<Rightarrow> bool) \<Rightarrow> json \<Rightarrow> bool" where
  "truthy isZero JNull = False"
| "truthy isZero (JBool b) = b"
| "truthy isZero (JNumber n) = (\<not> isZero n)"
| "truthy isZero (JString s) = (s \<noteq> [])"
| "truthy isZero (JArray vs) = True"
| "truthy isZero (JObject ms) = True"

section \<open>Data of the assistant pipeline\<close>

text \<open>
  What a tool function returns: the data it read (\<open>Payload\<close>, opaque here), the advisory
  object \<^verbatim>\<open>{ message: ... }\<close> of a role-gated tool, the help record of
  \<^verbatim>\<open>getOnboardingHelp\<close>, the object \<^verbatim>\<open>{ suggestions, issueCount, message }\<close> of
  \<^verbatim>\<open>suggestCorrections\<close> (\<open>Corrections\<close>, see there), or the error-shaped object
  \<^verbatim>\<open>{ error: ... }\<close>.
\<close>

datatype 'p tool_result =
    Payload 'p
  | Advisory jsstring
  | Guidance "json option"
  | Corrections "'p option list"
  | ErrorResult jsstring

text \<open>\<^verbatim>\<open>result.error\<close> as a condition: the field is there and is a non-empty string.\<close>

fun errorTruthy :: "'p tool_result \<Rightarrow> bool" where
  "errorTruthy (ErrorResult e) = (e \<noteq> [])"
| "errorTruthy r = False"

fun errorShaped :: "'p tool_result \<Rightarrow> bool" where
  "errorShaped (ErrorResult e) = True"
| "errorShaped r = False"

text \<open>A call of one of the twenty tool functions: its name and its arguments.\<close>

datatype call = Call jsstring "json option list"

text \<open>
  The content of a message sent to the completion backend. The system prompt with the
  user context, the echo \<^verbatim>\<open>TOOL_CALL: ${JSON.stringify(toolCall)}\<close> and the prompt
  \<^verbatim>\<open>TOOL_RESULT: ${JSON.stringify(toolResult)} ... Please summarize ...\<close> are kept
  structured: the serialisation into text is not modelled.
\<close>

datatype 'p content =
    Text jsstring
  | ContextPrompt jsstring jsstring jsstring
  | ToolCallEcho json
  | ToolResultPrompt "'p tool_result"

datatype 'p message = Message jsstring "'p content"

text \<open>
  The answer of \<^verbatim>\<open>fetch\<close>: the promise rejects, or there is a response with its
  \<^verbatim>\<open>ok\<close> flag and its body. A body is \<open>Unreadable\<close> when \<^verbatim>\<open>response.json()\<close> or
  \<^verbatim>\<open>data.choices[0]\<close> throws; otherwise it gives
  \<^verbatim>\<open>data.choices[0]?.message?.content\<close> and \<^verbatim>\<open>data.model\<close>, each a string or absent.
\<close>

datatype body = Unreadable | Completion "jsstring option" "jsstring option"

datatype fetch_result = Rejected | Response bool body

datatype failure = FetchRejected | BackendNotOk | BodyUnreadable | TypeError

record responseData =
  rd_response :: jsstring
  rd_model :: jsstring
  rd_userId :: jsstring
  rd_action :: "json option"

type_synonym 'v cache = "jsstring \<Rightarrow> ('v \<times> nat) option"

text \<open>
  The state: the clock, the two caches of the cache manager, and three traces kept for
  the verification: the message lists sent to the completion backend, the calls of
  \<^verbatim>\<open>executeTool\<close> (tool name and parameters) and the calls of the tool functions.
\<close>

record 'p world =
  clock :: nat
  toolCache :: "'p tool_result cache"
  responseCache :: "responseData cache"
  backendCalls :: "'p message list list"
  dispatches :: "(json option \<times> json) list"
  toolInvocations :: "call list"

datatype lookup = Found | Missing | LookupFailed

text \<open>
  The collaborators and parameters of the pipeline. \<open>backend n ms\<close> is the answer of the
  completion backend to the message list \<open>ms\<close> when \<open>n\<close> requests came before it;
  \<open>dataQuery n c\<close> is what the body of the tool function called as \<open>c\<close> reads from
  the database when \<open>n\<close> tool calls came before it, \<open>None\<close> when a query throws;
  \<open>projectLookup\<close> is \<^verbatim>\<open>Project.findOne\<close> in \<^verbatim>\<open>getProjectTimeSpent\<close>;
  \<open>templateText\<close> is the text of a value inside a template literal. The key functions
  and the lifetimes belong to the cache manager.
\<close>

record 'p env =
  backend :: "nat \<Rightarrow> 'p message list \<Rightarrow> fetch_result"
  dataQuery :: "nat \<Rightarrow> call \<Rightarrow> 'p option"
  projectLookup :: "nat \<Rightarrow> json option \<Rightarrow> lookup"
  templateText :: "json option \<Rightarrow> jsstring"
  numberIsZero :: "jsstring \<Rightarrow> bool"
  generateCacheKey :: "jsstring \<Rightarrow> jsstring \<Rightarrow> jsstring \<Rightarrow> jsstring"
  toolCacheKey :: "json option \<Rightarrow> jsstring \<Rightarrow> json \<Rightarrow> jsstring"
  responseTTL :: nat
  toolTTL :: nat

section \<open>The cache manager\<close>

text \<open>
  Modelled from the spec: \<^verbatim>\<open>../utils/cache-manager\<close>, which \<^verbatim>\<open>chatbot.js\<close> requires,
  is not among the source files. The Cache Store of the specification (sections 3 and
  4.1): \<open>put\<close> stores a value with an absolute expiry; \<open>get\<close> returns the value if it is
  present and unexpired; a read after \<open>expiresAt\<close> is a miss and evicts the entry.
\<close>

definition cachePut :: "nat \<Rightarrow> nat \<Rightarrow> jsstring \<Rightarrow> 'v \<Rightarrow> 'v cache \<Rightarrow> 'v cache" where
  "cachePut now ttl key v c = c(key \<mapsto> (v, now + ttl))"

definition cacheGet :: "nat \<Rightarrow> jsstring \<Rightarrow> 'v cache \<Rightarrow> 'v option \<times> 'v cache" where
  "cacheGet now key c =
     (case c key of
        None \<Rightarrow> (None, c)
      | Some (v, expiresAt) \<Rightarrow>
          if expiresAt < now then (None, c(key := None)) else (Some v, c))"

text \<open>
  Modelled from the spec: the two policy layers of section 4.2, which own the
  construction of the key and otherwise pass to the Cache Store.
\<close>

definition getCachedToolResult ::
  "'p env \<Rightarrow> json option \<Rightarrow> jsstring \<Rightarrow> json \<Rightarrow> 'p world \<Rightarrow> 'p tool_result option \<times> 'p world"
where
  "getCachedToolResult env toolName userId params w =
     (case cacheGet (clock w) (toolCacheKey env toolName userId params) (toolCache w) of
        (r, c) \<Rightarrow> (r, w\<lparr>toolCache := c\<rparr>))"

definition setCachedToolResult ::
  "'p env \<Rightarrow> json option \<Rightarrow> jsstring \<Rightarrow> 'p tool_result \<Rightarrow> json \<Rightarrow> 'p world \<Rightarrow> 'p world"
where
  "setCachedToolResult env toolName userId result params w =
     w\<lparr>toolCache := cachePut (clock w) (toolTTL env)
          (toolCacheKey env toolName userId params) result (toolCache w)\<rparr>"

definition getCachedResponse ::
  "'p env \<Rightarrow> jsstring \<Rightarrow> jsstring \<Rightarrow> jsstring \<Rightarrow> 'p world \<Rightarrow> responseData option \<times> 'p world"
where
  "getCachedResponse env userId message role w =
     (case cacheGet (clock w) (generateCacheKey env userId message role) (responseCache w) of
        (r, c) \<Rightarrow> (r, w\<lparr>responseCache := c\<rparr>))"

definition setCachedResponse ::
  "'p env \<Rightarrow> jsstring \<Rightarrow> jsstring \<Rightarrow> responseData \<Rightarrow> jsstring \<Rightarrow> 'p world \<Rightarrow> 'p world"
where
  "setCachedResponse env userId message responseData role w =
     w\<lparr>responseCache := cachePut (clock w) (responseTTL env)
          (generateCacheKey env userId message role) responseData (responseCache w)\<rparr>"

text \<open>
  Modelled from the spec: the Request Deduplicator of section 4.3, for requests handled
  one at a time. No computation is in flight for the key when the call is made, so the
  caller's invocation of the producer is the computation, and its result or failure is
  what the caller receives.
\<close>

definition deduplicateRequest :: "jsstring \<Rightarrow> ('w \<Rightarrow> 'r \<times> 'w) \<Rightarrow> 'w \<Rightarrow> 'r \<times> 'w" where
  "deduplicateRequest key producerFunction w = producerFunction w"

section \<open>The tool functions\<close>

definition logCall :: "call \<Rightarrow> 'p world \<Rightarrow> 'p world" where
  "logCall c w = w\<lparr>toolInvocations := toolInvocations w @ [c]\<rparr>"

text \<open>
  Every tool function but \<^verbatim>\<open>getOnboardingHelp\<close> and \<^verbatim>\<open>suggestCorrections\<close> has the shape
  \<^verbatim>\<open>try { ...queries...; return {...data...} } catch (error) { return { error: '...' } }\<close>:
  it returns the data it read, or its own error-shaped object when a query throws.
\<close>

definition queryOrFail ::
  "'p env \<Rightarrow> call \<Rightarrow> jsstring \<Rightarrow> 'p world \<Rightarrow> 'p tool_result \<times> 'p world"
where
  "queryOrFail env c failureText w =
     (case dataQuery env (length (toolInvocations w)) c of
        Some p \<Rightarrow> (Payload p, logCall c w)
      | None \<Rightarrow> (ErrorResult failureText, logCall c w))"

text \<open>A default parameter value is used when the argument is \<^verbatim>\<open>undefined\<close>.\<close>

definition orDefault :: "json option \<Rightarrow> jsstring \<Rightarrow> json option" where
  "orDefault arg d = (case arg of None \<Rightarrow> Some (JString d) | Some v \<Rightarrow> Some v)"

definition isManager :: "jsstring \<Rightarrow> bool" where
  "isManager role \<longleftrightarrow> \<not> (role \<noteq> js ''manager'' \<and> role \<noteq> js ''admin'')"

definition getLoggedHours ::
  "'p env \<Rightarrow> jsstring \<Rightarrow> json option \<Rightarrow> 'p world \<Rightarrow> 'p tool_result \<times> 'p world"
where
  "getLoggedHours env userId period w =
     queryOrFail env
       (Call (js ''getLoggedHours'') [Some (JString userId), orDefault period (js ''week'')])
       (js ''Failed to get logged hours'') w"

definition checkMissingHours ::
  "'p env \<Rightarrow> jsstring \<Rightarrow> json option \<Rightarrow> 'p world \<Rightarrow> 'p tool_result \<times> 'p world"
where
  "checkMissingHours env userId period w =
     queryOrFail env
       (Call (js ''checkMissingHours'') [Some (JString userId), orDefault period (js ''week'')])
       (js ''Failed to check missing hours'') w"

definition detectIncompleteEntries ::
  "'p env \<Rightarrow> jsstring \<Rightarrow> json option \<Rightarrow> 'p world \<Rightarrow> 'p tool_result \<times> 'p world"
where
  "detectIncompleteEntries env userId period w =
     queryOrFail env
       (Call (js ''detectIncompleteEntries'') [Some (JString userId), orDefault period (js ''week'')])
       (js ''Failed to detect incomplete entries'') w"

definition detectOverlappingHours ::
  "'p env \<Rightarrow> jsstring \<Rightarrow> json option \<Rightarrow> 'p world \<Rightarrow> 'p tool_result \<times> 'p world"
where
  "detectOverlappingHours env userId period w =
     queryOrFail env
       (Call (js ''detectOverlappingHours'') [Some (JString userId), orDefault period (js ''week'')])
       (js ''Failed to detect overlapping hours'') w"

definition checkOvertimeLimits ::
  "'p env \<Rightarrow> jsstring \<Rightarrow> json option \<Rightarrow> 'p world \<Rightarrow> 'p tool_result \<times> 'p world"
where
  "checkOvertimeLimits env userId period w =
     queryOrFail env
       (Call (js ''checkOvertimeLimits'') [Some (JString userId), orDefault period (js ''month'')])
       (js ''Failed to check overtime limits'') w"

definition getPendingTasks :: "'p env \<Rightarrow> jsstring \<Rightarrow> 'p world \<Rightarrow> 'p tool_result \<times> 'p world" where
  "getPendingTasks env userId w =
     queryOrFail env (Call (js ''getPendingTasks'') [Some (JString userId)])
       (js ''Failed to get tasks'') w"

definition getAssignedProjects :: "'p env \<Rightarrow> jsstring \<Rightarrow> 'p world \<Rightarrow> 'p tool_result \<times> 'p world" where
  "getAssignedProjects env userId w =
     queryOrFail env (Call (js ''getAssignedProjects'') [Some (JString userId)])
       (js ''Failed to get projects'') w"

definition checkTodayTimesheet :: "'p env \<Rightarrow> jsstring \<Rightarrow> 'p world \<Rightarrow> 'p tool_result \<times> 'p world" where
  "checkTodayTimesheet env userId w =
     queryOrFail env (Call (js ''checkTodayTimesheet'') [Some (JString userId)])
       (js ''Failed to check today's timesheet'') w"

definition getAttendanceStatus :: "'p env \<Rightarrow> jsstring \<Rightarrow> 'p world \<Rightarrow> 'p tool_result \<times> 'p world" where
  "getAttendanceStatus env userId w =
     queryOrFail env (Call (js ''getAttendanceStatus'') [Some (JString userId)])
       (js ''Failed to get attendance'') w"

definition getLeaveBalance :: "'p env \<Rightarrow> jsstring \<Rightarrow> 'p world \<Rightarrow> 'p tool_result \<times> 'p world" where
  "getLeaveBalance env userId w =
     queryOrFail env (Call (js ''getLeaveBalance'') [Some (JString userId)])
       (js ''Failed to get leave balance'') w"

definition suggestTaskNames :: "'p env \<Rightarrow> jsstring \<Rightarrow> 'p world \<Rightarrow> 'p tool_result \<times> 'p world" where
  "suggestTaskNames env userId w =
     queryOrFail env (Call (js ''suggestTaskNames'') [Some (JString userId)])
       (js ''Failed to suggest task names'') w"

definition getRepeatedEntries :: "'p env \<Rightarrow> jsstring \<Rightarrow> 'p world \<Rightarrow> 'p tool_result \<times> 'p world" where
  "getRepeatedEntries env userId w =
     queryOrFail env (Call (js ''getRepeatedEntries'') [Some (JString userId)])
       (js ''Failed to get repeated entries'') w"

definition getUpcomingDeadlines :: "'p env \<Rightarrow> jsstring \<Rightarrow> 'p world \<Rightarrow> 'p tool_result \<times> 'p world" where
  "getUpcomingDeadlines env userId w =
     queryOrFail env (Call (js ''getUpcomingDeadlines'') [Some (JString userId)])
       (js ''Failed to get upcoming deadlines'') w"

definition getTodayTasks :: "'p env \<Rightarrow> jsstring \<Rightarrow> 'p world \<Rightarrow> 'p tool_result \<times> 'p world" where
  "getTodayTasks env userId w =
     queryOrFail env (Call (js ''getTodayTasks'') [Some (JString userId)])
       (js ''Failed to get today's tasks'') w"

text \<open>
  \<^verbatim>\<open>suggestCorrections\<close> (lines 702 to 756) reads nothing itself: it calls
  \<^verbatim>\<open>detectIncompleteEntries(userId, 'week')\<close>, \<^verbatim>\<open>detectOverlappingHours(userId, 'week')\<close>,
  \<^verbatim>\<open>checkOvertimeLimits(userId, 'month')\<close> and \<^verbatim>\<open>checkMissingHours(userId, 'week')\<close>
  (started in this order under \<^verbatim>\<open>Promise.all\<close>) and builds its suggestions from
  \<^verbatim>\<open>incomplete.count\<close>, \<^verbatim>\<open>overlaps.count\<close>, \<^verbatim>\<open>overtime.exceedsLimit\<close>,
  \<^verbatim>\<open>overtime.totalOvertime\<close> and \<^verbatim>\<open>missing.totalMissingDays\<close>. Each of the four
  functions catches what its queries throw and returns its own error-shaped object, so
  nothing is thrown inside the \<^verbatim>\<open>try\<close> of \<^verbatim>\<open>suggestCorrections\<close> and its
  \<^verbatim>\<open>catch\<close> (\<^verbatim>\<open>{ error: 'Failed to suggest corrections' }\<close>) is never entered. A
  sub-result that is error-shaped has none of the fields read, so it adds no suggestion.
  The result is kept as \<open>Corrections\<close> of the four sub-results in the order above: the
  data of a sub-result (\<open>dataOf\<close>), or \<open>None\<close> for an error-shaped one. With four
  \<open>None\<close> it is the object with no suggestions, \<^verbatim>\<open>issueCount: 0\<close> and the message
  \<^verbatim>\<open>No issues found! Your timesheets look great.\<close>
\<close>

fun dataOf :: "'p tool_result \<Rightarrow> 'p option" where
  "dataOf (Payload p) = Some p"
| "dataOf r = None"

definition suggestCorrections :: "'p env \<Rightarrow> jsstring \<Rightarrow> 'p world \<Rightarrow> 'p tool_result \<times> 'p world" where
  "suggestCorrections env userId w =
     (let w0 = logCall (Call (js ''suggestCorrections'') [Some (JString userId)]) w;
          incomplete = detectIncompleteEntries env userId (Some (JString (js ''week''))) w0;
          overlaps = detectOverlappingHours env userId (Some (JString (js ''week'')))
                       (snd incomplete);
          overtime = checkOvertimeLimits env userId (Some (JString (js ''month'')))
                       (snd overlaps);
          missing = checkMissingHours env userId (Some (JString (js ''week''))) (snd overtime)
      in (Corrections [dataOf (fst incomplete), dataOf (fst overlaps),
                       dataOf (fst overtime), dataOf (fst missing)],
          snd missing))"

definition getPendingApprovals ::
  "'p env \<Rightarrow> jsstring \<Rightarrow> jsstring \<Rightarrow> 'p world \<Rightarrow> 'p tool_result \<times> 'p world"
where
  "getPendingApprovals env userId role w =
     (let c = Call (js ''getPendingApprovals'') [Some (JString userId), Some (JString role)]
      in if \<not> isManager role
         then (Advisory (js ''Only managers can view pending approvals''), logCall c w)
         else queryOrFail env c (js ''Failed to get pending approvals'') w)"

definition getManagerMissingTimesheets ::
  "'p env \<Rightarrow> jsstring \<Rightarrow> jsstring \<Rightarrow> json option \<Rightarrow> 'p world \<Rightarrow> 'p tool_result \<times> 'p world"
where
  "getManagerMissingTimesheets env userId userRole period w =
     (let c = Call (js ''getManagerMissingTimesheets'')
                [Some (JString userId), Some (JString userRole), orDefault period (js ''week'')]
      in if \<not> isManager userRole
         then (Advisory (js ''Only managers can view team timesheet status''), logCall c w)
         else queryOrFail env c (js ''Failed to get missing timesheets'') w)"

definition getTopLoggers ::
  "'p env \<Rightarrow> jsstring \<Rightarrow> jsstring \<Rightarrow> json option \<Rightarrow> 'p world \<Rightarrow> 'p tool_result \<times> 'p world"
where
  "getTopLoggers env userId userRole period w =
     (let c = Call (js ''getTopLoggers'')
                [Some (JString userId), Some (JString userRole), orDefault period (js ''month'')]
      in if \<not> isManager userRole
         then (Advisory (js ''Only managers can view team logging statistics''), logCall c w)
         else queryOrFail env c (js ''Failed to get top loggers'') w)"

text \<open>
  \<^verbatim>\<open>getProjectTimeSpent\<close> first looks the project up by name; when there is none it
  returns \<^verbatim>\<open>{ error: `Project "${projectName}" not found` }\<close>.
\<close>

definition getProjectTimeSpent ::
  "'p env \<Rightarrow> jsstring \<Rightarrow> json option \<Rightarrow> 'p world \<Rightarrow> 'p tool_result \<times> 'p world"
where
  \<open>getProjectTimeSpent env userId projectName w =
     (let c = Call (js ''getProjectTimeSpent'') [Some (JString userId), projectName]
      in case projectLookup env (length (toolInvocations w)) projectName of
           LookupFailed \<Rightarrow> (ErrorResult (js ''Failed to get project time''), logCall c w)
         | Missing \<Rightarrow>
             (ErrorResult (js ''Project "'' @ templateText env projectName @ js ''" not found''),
              logCall c w)
         | Found \<Rightarrow> queryOrFail env c (js ''Failed to get project time'') w)\<close>

text \<open>
  \<^verbatim>\<open>getOnboardingHelp\<close> has no \<^verbatim>\<open>try\<close>: \<^verbatim>\<open>topic?.toLowerCase()\<close> throws a
  TypeError when \<open>topic\<close> is neither a string nor \<^verbatim>\<open>undefined\<close> nor \<^verbatim>\<open>null\<close>.
  Otherwise it returns a help record, without reading the database.
\<close>

definition getOnboardingHelp ::
  "json option \<Rightarrow> 'p world \<Rightarrow> (failure + 'p tool_result) \<times> 'p world"
where
  "getOnboardingHelp topic w =
     (let w' = logCall (Call (js ''getOnboardingHelp'') [topic]) w
      in case topic of
           None \<Rightarrow> (Inr (Guidance topic), w')
         | Some JNull \<Rightarrow> (Inr (Guidance topic), w')
         | Some (JString t) \<Rightarrow> (Inr (Guidance topic), w')
         | Some v \<Rightarrow> (Inl TypeError, w'))"

definition returned :: "'a \<times> 'w \<Rightarrow> ('e + 'a) \<times> 'w" where
  "returned rw = (Inr (fst rw), snd rw)"

definition named :: "json option \<Rightarrow> string \<Rightarrow> bool" where
  "named toolName s \<longleftrightarrow> toolName = Some (JString (js s))"

text \<open>
  The \<^verbatim>\<open>switch (toolName)\<close> of \<^verbatim>\<open>executeTool\<close>. The cases compare with
  \<^verbatim>\<open>===\<close>, so a name that is not a string reaches \<^verbatim>\<open>default\<close>.
\<close>

definition toolSwitch ::
  "'p env \<Rightarrow> json option \<Rightarrow> jsstring \<Rightarrow> jsstring \<Rightarrow> json \<Rightarrow> 'p world
     \<Rightarrow> (failure + 'p tool_result) \<times> 'p world"
where
  "toolSwitch env toolName userId userRole params w =
     (if named toolName ''getLoggedHours''
        then returned (getLoggedHours env userId (getProp params (js ''period'')) w)
      else if named toolName ''getPendingTasks''
        then returned (getPendingTasks env userId w)
      else if named toolName ''getAssignedProjects''
        then returned (getAssignedProjects env userId w)
      else if named toolName ''checkTodayTimesheet''
        then returned (checkTodayTimesheet env userId w)
      else if named toolName ''getAttendanceStatus''
        then returned (getAttendanceStatus env userId w)
      else if named toolName ''getLeaveBalance''
        then returned (getLeaveBalance env userId w)
      else if named toolName ''getPendingApprovals''
        then returned (getPendingApprovals env userId userRole w)
      else if named toolName ''getProjectTimeSpent''
        then returned (getProjectTimeSpent env userId (getProp params (js ''projectName'')) w)
      else if named toolName ''suggestTaskNames''
        then returned (suggestTaskNames env userId w)
      else if named toolName ''getRepeatedEntries''
        then returned (getRepeatedEntries env userId w)
      else if named toolName ''checkMissingHours''
        then returned (checkMissingHours env userId (getProp params (js ''period'')) w)
      else if named toolName ''getUpcomingDeadlines''
        then returned (getUpcomingDeadlines env userId w)
      else if named toolName ''detectIncompleteEntries''
        then returned (detectIncompleteEntries env userId (getProp params (js ''period'')) w)
      else if named toolName ''detectOverlappingHours''
        then returned (detectOverlappingHours env userId (getProp params (js ''period'')) w)
      else if named toolName ''checkOvertimeLimits''
        then returned (checkOvertimeLimits env userId (getProp params (js ''period'')) w)
      else if named toolName ''suggestCorrections''
        then returned (suggestCorrections env userId w)
      else if named toolName ''getTodayTasks''
        then returned (getTodayTasks env userId w)
      else if named toolName ''getManagerMissingTimesheets''
        then returned (getManagerMissingTimesheets env userId userRole
                         (getProp params (js ''period'')) w)
      else if named toolName ''getTopLoggers''
        then returned (getTopLoggers env userId userRole (getProp params (js ''period'')) w)
      else if named toolName ''getOnboardingHelp''
        then getOnboardingHelp (getProp params (js ''topic'')) w
      else (Inr (ErrorResult (js ''Unknown tool'')), w))"

text \<open>
  \<^verbatim>\<open>executeTool\<close> (lines 1069 to 1150): the cached result if there is one; otherwise
  the result of the tool function, written to the tool cache when
  \<^verbatim>\<open>result && !result.error\<close>. A result is an object, hence truthy.
\<close>

definition executeTool ::
  "'p env \<Rightarrow> json option \<Rightarrow> jsstring \<Rightarrow> jsstring \<Rightarrow> json \<Rightarrow> 'p world
     \<Rightarrow> (failure + 'p tool_result) \<times> 'p world"
where
  "executeTool env toolName userId userRole params w0 =
     (let w = w0\<lparr>dispatches := dispatches w0 @ [(toolName, params)]\<rparr>
      in case getCachedToolResult env toolName userId params w of
           (Some cachedResult, w1) \<Rightarrow> (Inr cachedResult, w1)
         | (None, w1) \<Rightarrow>
             (case toolSwitch env toolName userId userRole params w1 of
                (Inl e, w2) \<Rightarrow> (Inl e, w2)
              | (Inr result, w2) \<Rightarrow>
                  if \<not> errorTruthy result
                  then (Inr result, setCachedToolResult env toolName userId result params w2)
                  else (Inr result, w2)))"

section \<open>The chat endpoint\<close>

text \<open>The authenticated user (\<^verbatim>\<open>req.user\<close>) and the body of the request.\<close>

record user =
  u_id :: jsstring
  u_role :: jsstring
  u_name :: jsstring

record 'p request =
  req_message :: "json option"
  req_history :: "'p message list"

text \<open>
  What \<^verbatim>\<open>res.json\<close> is given on a success. The field \<^verbatim>\<open>action\<close> is absent from the
  object, or \<^verbatim>\<open>null\<close>, or an action command.
\<close>

datatype action_field = ActionAbsent | ActionNull | ActionCommand json

record chat_body =
  response :: jsstring
  model :: jsstring
  cached :: bool
  action :: action_field

datatype reply = Status400 | Status200 chat_body | Status500 failure

definition TOOL_CALL :: jsstring where
  "TOOL_CALL = js ''TOOL_CALL:''"

definition ACTION_COMMAND :: jsstring where
  "ACTION_COMMAND = js ''ACTION_COMMAND:''"

definition toolErrorText :: jsstring where
  "toolErrorText =
     js ''I tried to look up your data but encountered an error. Please try again.''"

definition noSummaryText :: jsstring where
  "noSummaryText = js ''I retrieved the data but couldn't summarize it.''"

definition defaultModel :: jsstring where
  "defaultModel = js ''llama-3.1-8b-instant''"

text \<open>\<^verbatim>\<open>x || d\<close> for a string \<open>x\<close> that may be absent: \<open>d\<close> when \<open>x\<close> is absent or empty.\<close>

definition strOr :: "jsstring option \<Rightarrow> jsstring \<Rightarrow> jsstring" where
  "strOr x d = (case x of None \<Rightarrow> d | Some t \<Rightarrow> if t = [] then d else t)"

text \<open>\<^verbatim>\<open>toolCall.params || {}\<close>.\<close>

definition paramsOrEmpty :: "'p env \<Rightarrow> json option \<Rightarrow> json" where
  "paramsOrEmpty env p =
     (case p of
        None \<Rightarrow> JObject []
      | Some v \<Rightarrow> if truthy (numberIsZero env) v then v else JObject [])"

text \<open>\<^verbatim>\<open>xs.slice(-n)\<close>: the last \<open>n\<close> elements.\<close>

definition lastN :: "nat \<Rightarrow> 'a list \<Rightarrow> 'a list" where
  "lastN n xs = drop (length xs - n) xs"

definition fetch :: "'p env \<Rightarrow> 'p message list \<Rightarrow> 'p world \<Rightarrow> fetch_result \<times> 'p world" where
  "fetch env messages w =
     (backend env (length (backendCalls w)) messages,
      w\<lparr>backendCalls := backendCalls w @ [messages]\<rparr>)"

text \<open>
  Lines 1416 to 1455: the tool step. Everything the \<^verbatim>\<open>try\<close> block can throw
  (\<^verbatim>\<open>JSON.parse\<close>, reading a property of \<^verbatim>\<open>null\<close>, \<^verbatim>\<open>executeTool\<close>, the second
  \<^verbatim>\<open>fetch\<close>, reading its body) ends in the \<^verbatim>\<open>catch\<close>, which replaces the text.
\<close>

definition followUpMessages ::
  "user \<Rightarrow> jsstring \<Rightarrow> 'p message list \<Rightarrow> json \<Rightarrow> 'p tool_result \<Rightarrow> 'p message list"
where
  "followUpMessages usr message history toolCall toolResult =
     [Message (js ''system'') (ContextPrompt (u_name usr) (u_role usr) (u_id usr))]
     @ lastN 6 history
     @ [Message (js ''user'') (Text message),
        Message (js ''assistant'') (ToolCallEcho toolCall),
        Message (js ''user'') (ToolResultPrompt toolResult)]"

definition toolStep ::
  "'p env \<Rightarrow> user \<Rightarrow> jsstring \<Rightarrow> 'p message list \<Rightarrow> jsstring \<Rightarrow> 'p world \<Rightarrow> jsstring \<times> 'p world"
where
  "toolStep env usr message history aiResponse w =
     (if includes_str aiResponse TOOL_CALL then
        (case regexMatch TOOL_CALL aiResponse of
           None \<Rightarrow> (aiResponse, w)
         | Some payload \<Rightarrow>
             (case JSON_parse payload of
                None \<Rightarrow> (toolErrorText, w)
              | Some JNull \<Rightarrow> (toolErrorText, w)
              | Some toolCall \<Rightarrow>
                  (case executeTool env (getProp toolCall (js ''tool'')) (u_id usr) (u_role usr)
                          (paramsOrEmpty env (getProp toolCall (js ''params''))) w of
                     (Inl e, w1) \<Rightarrow> (toolErrorText, w1)
                   | (Inr toolResult, w1) \<Rightarrow>
                       (case fetch env
                               (followUpMessages usr message history toolCall toolResult) w1 of
                          (Rejected, w2) \<Rightarrow> (toolErrorText, w2)
                        | (Response ok b, w2) \<Rightarrow>
                            if ok then
                              (case b of
                                 Unreadable \<Rightarrow> (toolErrorText, w2)
                               | Completion c m \<Rightarrow> (strOr c noSummaryText, w2))
                            else (aiResponse, w2)))))
      else (aiResponse, w))"

text \<open>
  Lines 1458 to 1470: the action command is whatever \<^verbatim>\<open>JSON.parse\<close> makes of the first
  match; when it parses, every \<^verbatim>\<open>ACTION_COMMAND\<close> match is removed from the text, which
  is then trimmed.
\<close>

definition actionStep :: "jsstring \<Rightarrow> json option \<times> jsstring" where
  "actionStep aiResponse =
     (if includes_str aiResponse ACTION_COMMAND then
        (case regexMatch ACTION_COMMAND aiResponse of
           None \<Rightarrow> (None, aiResponse)
         | Some payload \<Rightarrow>
             (case JSON_parse payload of
                None \<Rightarrow> (None, aiResponse)
              | Some actionCommand \<Rightarrow>
                  (Some actionCommand, trim (replaceAll ACTION_COMMAND aiResponse))))
      else (None, aiResponse))"

text \<open>Lines 1387 to 1391: the message list of the first request to the backend.\<close>

definition firstMessages :: "user \<Rightarrow> jsstring \<Rightarrow> 'p message list \<Rightarrow> 'p message list" where
  "firstMessages usr message history =
     [Message (js ''system'') (ContextPrompt (u_name usr) (u_role usr) (u_id usr))]
     @ lastN 10 history
     @ [Message (js ''user'') (Text message)]"

text \<open>Lines 1381 to 1482: the producer handed to the deduplicator.\<close>

definition processRequest ::
  "'p env \<Rightarrow> user \<Rightarrow> jsstring \<Rightarrow> 'p message list \<Rightarrow> 'p world
     \<Rightarrow> (failure + responseData) \<times> 'p world"
where
  "processRequest env usr message history w =
     (let messages = firstMessages usr message history
      in case fetch env messages w of
           (Rejected, w1) \<Rightarrow> (Inl FetchRejected, w1)
         | (Response ok b, w1) \<Rightarrow>
             if \<not> ok then (Inl BackendNotOk, w1)
             else
               (case b of
                  Unreadable \<Rightarrow> (Inl BodyUnreadable, w1)
                | Completion c m \<Rightarrow>
                    (case toolStep env usr message history (strOr c []) w1 of
                       (aiResponse, w2) \<Rightarrow>
                         (case actionStep aiResponse of
                            (actionCommand, finalText) \<Rightarrow>
                              (let responseData =
                                     \<lparr>rd_response = finalText,
                                      rd_model = strOr m defaultModel,
                                      rd_userId = u_id usr,
                                      rd_action = actionCommand\<rparr>
                               in (Inr responseData,
                                   setCachedResponse env (u_id usr) message responseData
                                     (u_role usr) w2))))))"

text \<open>\<^verbatim>\<open>result.action || null\<close>.\<close>

definition actionOrNull :: "'p env \<Rightarrow> json option \<Rightarrow> action_field" where
  "actionOrNull env a =
     (case a of
        None \<Rightarrow> ActionNull
      | Some v \<Rightarrow> if truthy (numberIsZero env) v then ActionCommand v else ActionNull)"

text \<open>
  Lines 1358 to 1501: \<^verbatim>\<open>router.post('/chat', ...)\<close>. A missing, empty or non-string
  message is answered with status 400; a cached response is answered from the cache;
  otherwise the producer runs under the deduplicator, and what it throws becomes status
  500.
\<close>

definition chat :: "'p env \<Rightarrow> user \<Rightarrow> 'p request \<Rightarrow> 'p world \<Rightarrow> reply \<times> 'p world" where
  "chat env usr req w =
     (case req_message req of
        Some (JString message) \<Rightarrow>
          if message = [] then (Status400, w)
          else
            (case getCachedResponse env (u_id usr) message (u_role usr) w of
               (Some cachedResponse, w1) \<Rightarrow>
                 (Status200 \<lparr>response = rd_response cachedResponse,
                             model = rd_model cachedResponse,
                             cached = True,
                             action = ActionAbsent\<rparr>, w1)
             | (None, w1) \<Rightarrow>
                 (case deduplicateRequest
                         (generateCacheKey env (u_id usr) message (u_role usr))
                         (processRequest env usr message (req_history req)) w1 of
                    (Inl e, w2) \<Rightarrow> (Status500 e, w2)
                  | (Inr result, w2) \<Rightarrow>
                      (Status200 \<lparr>response = rd_response result,
                                  model = rd_model result,
                                  cached = False,
                                  action = actionOrNull env (rd_action result)\<rparr>, w2)))
      | _ \<Rightarrow> (Status400, w))"

fun isObject :: "json \<Rightarrow> bool" where
  "isObject (JObject ms) = True"
| "isObject v = False"

definition bottomObject :: "frame list \<Rightarrow> bool" where
  "bottomObject st \<longleftrightarrow> st \<noteq> [] \<and> (\<exists>acc k. last st = InObject acc k)"

definition toolOutcome :: "'p world \<Rightarrow> 'p tool_result \<times> 'p world \<Rightarrow> bool" where
  "toolOutcome w rw \<longleftrightarrow>
     (\<exists>c. snd rw = logCall c w) \<and> (\<forall>e. fst rw = ErrorResult e \<longrightarrow> e \<noteq> [])"

text \<open>A tool cache is clean when it holds no error-shaped result.\<close>

definition cacheClean :: "'p world \<Rightarrow> bool" where
  "cacheClean w \<longleftrightarrow> (\<forall>k v e. toolCache w k = Some (v, e) \<longrightarrow> \<not> errorShaped v)"

text \<open>The number of objects in a parsed value.\<close>

primrec objectCount :: "json \<Rightarrow> nat" where
  "objectCount JNull = 0"
| "objectCount (JBool b) = 0"
| "objectCount (JNumber n) = 0"
| "objectCount (JString s) = 0"
| "objectCount (JArray vs) = sum_list (map objectCount vs)"
| "objectCount (JObject ms) = Suc (sum_list (map snd (map (map_prod id objectCount) ms)))"

fun frameObjects :: "frame \<Rightarrow> nat" where
  "frameObjects (InArray vs) = sum_list (map objectCount vs)"
| "frameObjects (InObject ms k) = sum_list (map snd (map (map_prod id objectCount) ms))"

section \<open>A concrete installation\<close>

text \<open>
  The concrete backend answers from a fixed list, request by request, and rejects when
  the list is exhausted. The data queries all return the same rows, or all fail. The
  conversation key joins user, message and role; the tool key joins tool name and user.
\<close>

definition scripted :: "fetch_result list \<Rightarrow> nat \<Rightarrow> 'p message list \<Rightarrow> fetch_result" where
  "scripted answers n ms = (if n < length answers then answers ! n else Rejected)"

definition demoToolKey :: "json option \<Rightarrow> jsstring \<Rightarrow> json \<Rightarrow> jsstring" where
  "demoToolKey toolName userId params =
     (case toolName of Some (JString n) \<Rightarrow> n | _ \<Rightarrow> []) @ [124] @ userId"

definition demoEnv :: "fetch_result list \<Rightarrow> int option \<Rightarrow> int env" where
  "demoEnv answers rows =
     \<lparr>backend = scripted answers,
      dataQuery = (\<lambda>n c. rows),
      projectLookup = (\<lambda>n p. Missing),
      templateText = (\<lambda>v. js ''undefined''),
      numberIsZero = (\<lambda>n. n = js ''0''),
      generateCacheKey = (\<lambda>u m r. u @ [124] @ m @ [124] @ r),
      toolCacheKey = demoToolKey,
      responseTTL = 5,
      toolTTL = 5\<rparr>"

definition emptyWorld :: "int world" where
  "emptyWorld =
     \<lparr>clock = 0, toolCache = Map.empty, responseCache = Map.empty,
      backendCalls = [], dispatches = [], toolInvocations = []\<rparr>"

definition employee :: user where
  "employee = \<lparr>u_id = js ''u1'', u_role = js ''employee'', u_name = js ''Asha''\<rparr>"

definition ask :: "string \<Rightarrow> int request" where
  "ask m = \<lparr>req_message = Some (JString (js m)), req_history = []\<rparr>"

definition says :: "string \<Rightarrow> fetch_result" where
  "says t = Response True (Completion (Some (js t)) None)"

section \<open>Notions used to state the properties of a turn\<close>

text \<open>
  A turn that misses the conversation cache and whose first request to the backend is
  answered with a readable completion: the content \<open>c\<close> and the model name \<open>m\<close>.
\<close>

definition firstCompletion ::
  "'p env \<Rightarrow> user \<Rightarrow> 'p request \<Rightarrow> 'p world \<Rightarrow> jsstring \<Rightarrow> jsstring option \<Rightarrow> jsstring option
     \<Rightarrow> bool"
where
  "firstCompletion env usr req w message c m \<longleftrightarrow>
     req_message req = Some (JString message) \<and> message \<noteq> []
     \<and> fst (getCachedResponse env (u_id usr) message (u_role usr) w) = None
     \<and> backend env (length (backendCalls w)) (firstMessages usr message (req_history req))
         = Response True (Completion c m)"

text \<open>The state of such a turn when the first answer has arrived.\<close>

definition afterFirstCall :: "'p env \<Rightarrow> user \<Rightarrow> 'p request \<Rightarrow> 'p world \<Rightarrow> jsstring \<Rightarrow> 'p world" where
  "afterFirstCall env usr req w message =
     (snd (getCachedResponse env (u_id usr) message (u_role usr) w))
       \<lparr>backendCalls := backendCalls w @ [firstMessages usr message (req_history req)]\<rparr>"

text \<open>
  \<open>firstDirective marker text payload\<close>: the leftmost place of \<open>text\<close> where the
  directive pattern of \<open>marker\<close> matches captures \<open>payload\<close>.
\<close>

definition firstDirective :: "jsstring \<Rightarrow> jsstring \<Rightarrow> jsstring \<Rightarrow> bool" where
  "firstDirective marker text payload \<longleftrightarrow>
     (\<exists>i<length text.
        (\<exists>after. matchAt marker (drop i text) = Some (payload, after))
        \<and> (\<forall>j<i. matchAt marker (drop j text) = None))"

text \<open>
  The allow-list of the browser-side action executor (\<^verbatim>\<open>ACTION_REGISTRY\<close>), and the
  field of a command that names its target for each kind of action
  (\<^verbatim>\<open>executeChatbotAction\<close>).
\<close>

definition ACTION_REGISTRY :: "(string \<times> string list) list" where
  "ACTION_REGISTRY =
     [(''navigate'',
        [''employee-dashboard'', ''manager-dashboard'', ''admin-dashboard'',
         ''timesheets-page'', ''tasks-page'', ''attendance-page'', ''profile-page'',
         ''home'']),
      (''click'',
        [''#addTimesheetBtn'', ''#checkInBtn'', ''#checkOutBtn'', ''#submitTimesheetBtn'',
         ''#addTaskBtn'', ''#viewReportsBtn'']),
      (''scroll'',
        [''timesheets-section'', ''tasks-section'', ''attendance-section'',
         ''reports-section'', ''profile-section'']),
      (''open_modal'', [''add-timesheet'', ''edit-timesheet'', ''add-task''])]"

definition targetField :: "string \<Rightarrow> string" where
  "targetField kind =
     (if kind = ''click'' then ''element''
      else if kind = ''open_modal'' then ''modal''
      else ''target'')"

text \<open>
  Modelled from the spec: the Action Gate of section 4.6, which has no counterpart in
  \<^verbatim>\<open>chatbot.js\<close>. A command passes when its \<^verbatim>\<open>action\<close> is one of the four kinds
  and its target, element or modal string is a literal member of the registry of that
  kind.
\<close>

definition gateAccepts :: "json \<Rightarrow> bool" where
  "gateAccepts cmd =
     (case getProp cmd (js ''action'') of
        Some (JString a) \<Rightarrow>
          list_ex
            (\<lambda>(kind, names).
               js kind = a
               \<and> (case getProp cmd (js (targetField kind)) of
                     Some (JString t) \<Rightarrow> list_ex (\<lambda>n. js n = t) names
                   | _ \<Rightarrow> False))
            ACTION_REGISTRY
      | _ \<Rightarrow> False)"

text \<open>What the endpoint makes of a text: the parse of its first action directive.\<close>

definition parsedAction :: "jsstring \<Rightarrow> action_field" where
  "parsedAction t =
     (case regexMatch ACTION_COMMAND t of
        None \<Rightarrow> ActionNull
      | Some p \<Rightarrow> (case JSON_parse p of None \<Rightarrow> ActionNull | Some cmd \<Rightarrow> ActionCommand cmd))"

section \<open>Concrete turns\<close>

text \<open>
  The question of the specification's first scenario, answered by the backend with the
  directive in the format the system prompt prescribes (line 1172), and the turn it
  leads to.
\<close>

definition hoursQuestion :: "int request" where
  "hoursQuestion = ask ''How many hours did I log this week?''"

definition promptedDirective :: jsstring where
  \<open>promptedDirective =
     js ''TOOL_CALL: {"tool": "getLoggedHours", "params": {"period": "week"}}''\<close>

definition weekHoursEnv :: "int env" where
  "weekHoursEnv =
     demoEnv [Response True (Completion (Some promptedDirective) None),
              says ''You logged 40 hours this week.''] (Some 40)"

definition weekHoursTurn :: "reply \<times> int world" where
  "weekHoursTurn = chat weekHoursEnv employee hoursQuestion emptyWorld"

text \<open>
  A directive without nested braces. In the first installation the summarization request
  is answered with a non-2xx status, and the same question is asked again at once; the
  backend would answer the third and fourth request well. In the second installation the
  data query fails and the backend summarizes the failure.
\<close>

definition flatDirective :: jsstring where
  \<open>flatDirective = js ''TOOL_CALL: {"tool": "getLoggedHours"}''\<close>

definition outageEnv :: "int env" where
  "outageEnv =
     demoEnv [Response True (Completion (Some flatDirective) None),
              Response False Unreadable,
              Response True (Completion (Some flatDirective) None),
              says ''You logged 40 hours this week.''] (Some 40)"

definition outageFirst :: "reply \<times> int world" where
  "outageFirst = chat outageEnv employee hoursQuestion emptyWorld"

definition outageSecond :: "reply \<times> int world" where
  "outageSecond = chat outageEnv employee hoursQuestion (snd outageFirst)"

definition brokenToolEnv :: "int env" where
  "brokenToolEnv =
     demoEnv [Response True (Completion (Some flatDirective) None),
              says ''Sorry, I could not read your hours.'',
              Response True (Completion (Some flatDirective) None),
              says ''You logged 40 hours this week.''] None"

definition brokenToolFirst :: "reply \<times> int world" where
  "brokenToolFirst = chat brokenToolEnv employee hoursQuestion emptyWorld"

definition brokenToolSecond :: "reply \<times> int world" where
  "brokenToolSecond = chat brokenToolEnv employee hoursQuestion (snd brokenToolFirst)"

text \<open>
  A turn whose directive names \<^verbatim>\<open>suggestCorrections\<close>, in an installation where every
  data query fails.
\<close>

definition correctionsQuestion :: "int request" where
  "correctionsQuestion = ask ''Is anything wrong with my timesheets?''"

definition correctionsDirective :: jsstring where
  \<open>correctionsDirective = js ''TOOL_CALL: {"tool": "suggestCorrections"}''\<close>

definition correctionsEnv :: "int env" where
  "correctionsEnv =
     demoEnv [Response True (Completion (Some correctionsDirective) None),
              says ''Your timesheets look great.''] None"

definition correctionsTurn :: "reply \<times> int world" where
  "correctionsTurn = chat correctionsEnv employee correctionsQuestion emptyWorld"

text \<open>The dashboard scenario of the specification, asked twice.\<close>

definition dashboardText :: jsstring where
  \<open>dashboardText =
     js ''ACTION_COMMAND: {"action": "navigate", "target": "employee-dashboard"} Opening your dashboard.''\<close>

definition dashboardCommand :: json where
  "dashboardCommand =
     JObject [(js ''action'', JString (js ''navigate'')),
              (js ''target'', JString (js ''employee-dashboard''))]"

definition dashboardEnv :: "int env" where
  "dashboardEnv = demoEnv [Response True (Completion (Some dashboardText) None)] None"

definition dashboardFirst :: "reply \<times> int world" where
  "dashboardFirst = chat dashboardEnv employee (ask ''Open my dashboard'') emptyWorld"

definition dashboardSecond :: "reply \<times> int world" where
  "dashboardSecond = chat dashboardEnv employee (ask ''Open my dashboard'') (snd dashboardFirst)"




text \<open>A tool marker whose payload is not JSON, inside other text.\<close>

definition garbledTurn :: "reply \<times> int world" where
  "garbledTurn =
     chat (demoEnv [says ''Hello TOOL_CALL: {oops} there''] None) employee
       (ask ''hi'') emptyWorld"



section \<open>Properties of the directive patterns and of JSON.parse\<close>

lemma startsWith_append: "startsWith s m \<Longrightarrow> \<exists>r. s = m @ r"
  by (induction s m rule: startsWith.induct) auto

lemma matchAt_startsWith: "matchAt m s = Some r \<Longrightarrow> startsWith s m"
  by (simp add: matchAt_def split: if_splits)

lemma regexMatch_includes: "regexMatch m s = Some p \<Longrightarrow> includes_str s m"
proof (induction s)
  case Nil
  then show ?case by simp
next
  case (Cons c cs)
  show ?case
  proof (cases "matchAt m (c # cs)")
    case None
    with Cons show ?thesis by simp
  next
    case (Some r)
    then have "startsWith (c # cs) m" by (rule matchAt_startsWith)
    then show ?thesis by simp
  qed
qed

lemma matchPayload_shape:
  "matchPayload s = Some (p, after) \<Longrightarrow>
     \<exists>body. p = 123 # body @ [125] \<and> body \<noteq> [] \<and> 125 \<notin> set body"
proof -
  assume a: "matchPayload s = Some (p, after)"
  have "\<forall>x \<in> set (takeWhile (\<lambda>x. x \<noteq> 125) r). x \<noteq> 125" for r :: jsstring
    by (auto dest: set_takeWhileD)
  then show ?thesis
    using a
    by (auto simp: matchPayload_def Let_def split: list.splits if_splits)
qed

lemma regexMatch_matchAt:
  "regexMatch m s = Some p \<Longrightarrow>
     \<exists>i after. i < length s \<and> matchAt m (drop i s) = Some (p, after)
                \<and> (\<forall>j<i. matchAt m (drop j s) = None)"
proof (induction s)
  case Nil
  then show ?case by simp
next
  case (Cons c cs)
  show ?case
  proof (cases "matchAt m (c # cs)")
    case (Some r)
    with Cons.prems obtain after where "matchAt m (c # cs) = Some (p, after)"
      by (cases r) auto
    then have "0 < length (c # cs) \<and> matchAt m (drop 0 (c # cs)) = Some (p, after)
        \<and> (\<forall>j<0. matchAt m (drop j (c # cs)) = None)" by simp
    then show ?thesis by blast
  next
    case None
    with Cons.prems have "regexMatch m cs = Some p" by simp
    from Cons.IH [OF this] obtain i after where
      i: "i < length cs" "matchAt m (drop i cs) = Some (p, after)"
         "\<forall>j<i. matchAt m (drop j cs) = None" by blast
    have "\<forall>j<Suc i. matchAt m (drop j (c # cs)) = None"
    proof (intro allI impI)
      fix j assume "j < Suc i"
      then show "matchAt m (drop j (c # cs)) = None"
        using None i(3) by (cases j) auto
    qed
    with i(1,2) have "Suc i < length (c # cs)
        \<and> matchAt m (drop (Suc i) (c # cs)) = Some (p, after)
        \<and> (\<forall>j<Suc i. matchAt m (drop j (c # cs)) = None)" by simp
    then show ?thesis by blast
  qed
qed

lemma regexMatch_shape:
  "regexMatch m s = Some p \<Longrightarrow>
     \<exists>body. p = 123 # body @ [125] \<and> body \<noteq> [] \<and> 125 \<notin> set body"
proof -
  assume "regexMatch m s = Some p"
  then obtain i after where "matchAt m (drop i s) = Some (p, after)"
    by (blast dest: regexMatch_matchAt)
  then have "\<exists>t. matchPayload t = Some (p, after)"
    by (auto simp: matchAt_def split: if_splits)
  then show ?thesis by (blast dest: matchPayload_shape)
qed

lemma bottomObject_Cons:
  "bottomObject (f # st) \<longleftrightarrow> (if st = [] then (\<exists>acc k. f = InObject acc k) else bottomObject st)"
  by (simp add: bottomObject_def)

lemma bottomObject_Nil: "\<not> bottomObject []"
  by (simp add: bottomObject_def)

lemma parse_bottomObject:
  "(bottomObject st \<longrightarrow> parseValue st ts = Some r \<longrightarrow> isObject r)"
  "(st = [] \<or> bottomObject st \<longrightarrow> parseKey acc st ts = Some r \<longrightarrow> isObject r)"
  "(bottomObject st \<or> (st = [] \<and> isObject v) \<longrightarrow> parseAfter v st ts = Some r \<longrightarrow> isObject r)"
proof (induction st ts and acc st ts and v st ts rule: parseValue_parseKey_parseAfter.induct)
  case (1 st)
  then show ?case by simp
next
  case (2 st t ts)
  then show ?case
    using bottomObject_Nil by (cases t) (auto simp: bottomObject_Cons split: if_splits)
next
  case (3 acc st)
  then show ?case by simp
next
  case (4 acc st t)
  then show ?case by simp
next
  case (5 acc st t t' ts)
  show ?case
  proof (cases "\<exists>k. t = TString k \<and> t' = TColon")
    case True
    then obtain k where k: "t = TString k" "t' = TColon" by blast
    from 5 [OF refl k] show ?thesis
      using k bottomObject_Nil by (auto simp: bottomObject_Cons)
  next
    case False
    then have "parseKey acc st (t # t' # ts) = None"
      by (cases t; cases t') auto
    then show ?thesis by simp
  qed
next
  case (6 v ts)
  then show ?case by (auto simp: bottomObject_def split: if_splits)
next
  case (7 v f st)
  then show ?case by simp
next
  case (8 v f st t ts)
  show ?case
  proof (cases f)
    case (InArray a)
    show ?thesis
    proof (cases "t = TComma")
      case True
      from 8(2) [OF refl InArray True] show ?thesis
        using InArray True bottomObject_Nil by (auto simp: bottomObject_Cons split: if_splits)
    next
      case nc: False
      show ?thesis
      proof (cases "t = TRBrack")
        case True
        from 8(1) [OF refl InArray True] show ?thesis
          using InArray True bottomObject_Nil by (auto simp: bottomObject_Cons split: if_splits)
      next
        case False
        with nc InArray have "parseAfter v (f # st) (t # ts) = None"
          by (cases t) auto
        then show ?thesis by simp
      qed
    qed
  next
    case (InObject a k)
    show ?thesis
    proof (cases "t = TComma")
      case True
      from 8(4) [OF refl InObject True] show ?thesis
        using InObject True bottomObject_Nil by (auto simp: bottomObject_Cons split: if_splits)
    next
      case nc: False
      show ?thesis
      proof (cases "t = TRBrace")
        case True
        from 8(3) [OF refl InObject True] show ?thesis
          using InObject True bottomObject_Nil by (auto simp: bottomObject_Cons split: if_splits)
      next
        case False
        with nc InObject have "parseAfter v (f # st) (t # ts) = None"
          by (cases t) auto
        then show ?thesis by simp
      qed
    qed
  qed
qed

lemma lex_brace: "lex (123 # s) = Some ts \<Longrightarrow> \<exists>ts'. ts = TLBrace # ts'"
  by (cases "lex s") (auto simp: consTok_def)

lemma JSON_parse_brace: "JSON_parse (123 # s) = Some v \<Longrightarrow> isObject v"
proof -
  assume a: "JSON_parse (123 # s) = Some v"
  then obtain ts where ts: "lex (123 # s) = Some ts" and pv: "parseValue [] ts = Some v"
    by (auto simp: JSON_parse_def split: option.splits)
  from ts obtain ts' where ts': "ts = TLBrace # ts'" by (blast dest: lex_brace)
  from pv ts' have "(nextIs TRBrace ts' \<and> parseAfter (JObject []) [] (tl ts') = Some v)
      \<or> parseKey [] [] ts' = Some v"
    by (simp split: if_splits)
  then show ?thesis
    using parse_bottomObject(3) [of "[]" "JObject []" "tl ts'" v]
      parse_bottomObject(2) [of "[]" "[]" ts' v]
    by auto
qed

lemma js_nonempty: "s \<noteq> [] \<Longrightarrow> js s \<noteq> []"
  by (simp add: js_def)

lemma queryOrFail_outcome: "f \<noteq> [] \<Longrightarrow> toolOutcome w (queryOrFail env c f w)"
  by (auto simp: toolOutcome_def queryOrFail_def split: option.splits)

lemma advisory_outcome: "toolOutcome w (Advisory a, logCall c w)"
  by (auto simp: toolOutcome_def)

lemmas tool_defs =
  getLoggedHours_def getPendingTasks_def getAssignedProjects_def checkTodayTimesheet_def
  getAttendanceStatus_def getLeaveBalance_def suggestTaskNames_def getRepeatedEntries_def
  checkMissingHours_def getUpcomingDeadlines_def detectIncompleteEntries_def
  detectOverlappingHours_def checkOvertimeLimits_def getTodayTasks_def

lemma plain_tools_outcome:
  "toolOutcome w (getLoggedHours env u p w)"
  "toolOutcome w (getPendingTasks env u w)"
  "toolOutcome w (getAssignedProjects env u w)"
  "toolOutcome w (checkTodayTimesheet env u w)"
  "toolOutcome w (getAttendanceStatus env u w)"
  "toolOutcome w (getLeaveBalance env u w)"
  "toolOutcome w (suggestTaskNames env u w)"
  "toolOutcome w (getRepeatedEntries env u w)"
  "toolOutcome w (checkMissingHours env u p w)"
  "toolOutcome w (getUpcomingDeadlines env u w)"
  "toolOutcome w (detectIncompleteEntries env u p w)"
  "toolOutcome w (detectOverlappingHours env u p w)"
  "toolOutcome w (checkOvertimeLimits env u p w)"
  "toolOutcome w (getTodayTasks env u w)"
  by (simp_all add: tool_defs queryOrFail_outcome js_nonempty)

lemma gated_tools_outcome:
  "toolOutcome w (getPendingApprovals env u r w)"
  "toolOutcome w (getManagerMissingTimesheets env u r p w)"
  "toolOutcome w (getTopLoggers env u r p w)"
  by (simp_all add: getPendingApprovals_def getManagerMissingTimesheets_def
        getTopLoggers_def Let_def queryOrFail_outcome advisory_outcome js_nonempty)

lemma getProjectTimeSpent_outcome: "toolOutcome w (getProjectTimeSpent env u p w)"
proof (cases "projectLookup env (length (toolInvocations w)) p")
  case Found
  then show ?thesis
    by (simp add: getProjectTimeSpent_def Let_def queryOrFail_outcome js_nonempty)
next
  case Missing
  then show ?thesis
    by (auto simp: getProjectTimeSpent_def Let_def toolOutcome_def js_def)
next
  case LookupFailed
  then show ?thesis
    by (auto simp: getProjectTimeSpent_def Let_def toolOutcome_def js_def)
qed

lemma getOnboardingHelp_outcome:
  "getOnboardingHelp t w = (x, w') \<Longrightarrow>
     (\<exists>c. w' = logCall c w) \<and> (\<forall>r. x = Inr r \<longrightarrow> \<not> errorShaped r)"
  by (auto simp: getOnboardingHelp_def Let_def split: option.splits json.splits)

lemma returned_outcome:
  "toolOutcome w rw \<Longrightarrow> returned rw = (x, w') \<Longrightarrow>
     (\<exists>c. w' = logCall c w) \<and> (\<exists>r. x = Inr r \<and> (\<forall>e. r = ErrorResult e \<longrightarrow> e \<noteq> []))"
  by (auto simp: toolOutcome_def returned_def)

lemma logCall_extends:
  "w' = logCall c w \<Longrightarrow> w' = w\<lparr>toolInvocations := toolInvocations w @ [c]\<rparr>"
  by (simp add: logCall_def)

lemma suggestCorrections_outcome:
  "\<exists>cs os. suggestCorrections env u w
             = (Corrections os, w\<lparr>toolInvocations := toolInvocations w @ cs\<rparr>)"
proof -
  let ?c0 = "Call (js ''suggestCorrections'') [Some (JString u)]"
  let ?week = "Some (JString (js ''week''))"
  let ?month = "Some (JString (js ''month''))"
  obtain w0 where w0: "w0 = logCall ?c0 w" by simp
  obtain ra wa where A: "detectIncompleteEntries env u ?week w0 = (ra, wa)" by fastforce
  obtain rb wb where B: "detectOverlappingHours env u ?week wa = (rb, wb)" by fastforce
  obtain rc wc where C: "checkOvertimeLimits env u ?month wb = (rc, wc)" by fastforce
  obtain rd wd where D: "checkMissingHours env u ?week wc = (rd, wd)" by fastforce
  from plain_tools_outcome(11) [of w0 env u ?week] A
  obtain c1 where a: "wa = logCall c1 w0" by (auto simp: toolOutcome_def)
  from plain_tools_outcome(12) [of wa env u ?week] B
  obtain c2 where b: "wb = logCall c2 wa" by (auto simp: toolOutcome_def)
  from plain_tools_outcome(13) [of wb env u ?month] C
  obtain c3 where c: "wc = logCall c3 wb" by (auto simp: toolOutcome_def)
  from plain_tools_outcome(9) [of wc env u ?week] D
  obtain c4 where d: "wd = logCall c4 wc" by (auto simp: toolOutcome_def)
  have "suggestCorrections env u w
      = (Corrections [dataOf ra, dataOf rb, dataOf rc, dataOf rd], wd)"
    unfolding suggestCorrections_def Let_def w0 [symmetric]
    by (simp only: A B C D snd_conv fst_conv)
  moreover have "wd = w\<lparr>toolInvocations := toolInvocations w @ [?c0, c1, c2, c3, c4]\<rparr>"
    by (simp add: d c b a w0 logCall_def)
  ultimately show ?thesis by blast
qed

lemma toolSwitch_outcome:
  assumes "toolSwitch env tn u r p w = (x, w')"
  shows "(\<exists>cs. w' = w\<lparr>toolInvocations := toolInvocations w @ cs\<rparr>)
         \<and> (\<forall>res e. x = Inr res \<longrightarrow> res = ErrorResult e \<longrightarrow> e \<noteq> [])"
proof -
  note o = plain_tools_outcome gated_tools_outcome getProjectTimeSpent_outcome
  have unknown: "js ''Unknown tool'' \<noteq> []" by (simp add: js_def)
  have same: "w = w\<lparr>toolInvocations := toolInvocations w @ []\<rparr>" by simp
  have sc: "returned (suggestCorrections env u w) = (x, w') \<Longrightarrow>
      (\<exists>cs. w' = w\<lparr>toolInvocations := toolInvocations w @ cs\<rparr>)
      \<and> (\<forall>res e. x = Inr res \<longrightarrow> res = ErrorResult e \<longrightarrow> e \<noteq> [])"
    using suggestCorrections_outcome [of env u w] by (auto simp: returned_def)
  have one: "\<exists>cs. w' = w\<lparr>toolInvocations := toolInvocations w @ cs\<rparr>"
    if "\<exists>c. w' = logCall c w"
  proof -
    from that obtain c where "w' = w\<lparr>toolInvocations := toolInvocations w @ [c]\<rparr>"
      by (auto simp: logCall_def)
    then show ?thesis by (rule exI [of _ "[c]"])
  qed
  from assms have "((\<exists>c. w' = logCall c w) \<or> w' = w
        \<or> returned (suggestCorrections env u w) = (x, w'))
      \<and> (returned (suggestCorrections env u w) = (x, w')
          \<or> (\<forall>res e. x = Inr res \<longrightarrow> res = ErrorResult e \<longrightarrow> e \<noteq> []))"
    unfolding toolSwitch_def
    by (auto split: if_splits
             dest!: returned_outcome [OF o(1)] returned_outcome [OF o(2)]
                    returned_outcome [OF o(3)] returned_outcome [OF o(4)]
                    returned_outcome [OF o(5)] returned_outcome [OF o(6)]
                    returned_outcome [OF o(7)] returned_outcome [OF o(8)]
                    returned_outcome [OF o(9)] returned_outcome [OF o(10)]
                    returned_outcome [OF o(11)] returned_outcome [OF o(12)]
                    returned_outcome [OF o(13)] returned_outcome [OF o(14)]
                    returned_outcome [OF o(15)] returned_outcome [OF o(16)]
                    returned_outcome [OF o(17)] returned_outcome [OF o(18)]
                    getOnboardingHelp_outcome
             simp: unknown)
  then show ?thesis
    using sc one same by metis
qed

lemma cacheGet_cases:
  "cacheGet now key c = (r, c') \<Longrightarrow>
     (r = None \<and> c' key = None \<and> (\<forall>k. k \<noteq> key \<longrightarrow> c' k = c k)
        \<and> (c key = None \<or> (\<exists>v e. c key = Some (v, e) \<and> e < now)))
     \<or> (\<exists>v e. r = Some v \<and> c' = c \<and> c key = Some (v, e) \<and> now \<le> e)"
  by (auto simp: cacheGet_def split: option.splits if_splits)

lemma cacheGet_hit:
  "c key = Some (v, e) \<Longrightarrow> now \<le> e \<Longrightarrow> cacheGet now key c = (Some v, c)"
  by (simp add: cacheGet_def)

lemma getCachedToolResult_eq:
  "getCachedToolResult env tn u p w =
     (fst (cacheGet (clock w) (toolCacheKey env tn u p) (toolCache w)),
      w\<lparr>toolCache := snd (cacheGet (clock w) (toolCacheKey env tn u p) (toolCache w))\<rparr>)"
  by (simp add: getCachedToolResult_def split_def)

lemma getCachedResponse_eq:
  "getCachedResponse env u m r w =
     (fst (cacheGet (clock w) (generateCacheKey env u m r) (responseCache w)),
      w\<lparr>responseCache :=
           snd (cacheGet (clock w) (generateCacheKey env u m r) (responseCache w))\<rparr>)"
  by (simp add: getCachedResponse_def split_def)

lemma errorTruthy_imp_shaped: "errorTruthy r \<Longrightarrow> errorShaped r"
  by (cases r) auto

lemma toolSwitch_fields:
  assumes "toolSwitch env tn u r p w = (x, w')"
  shows "backendCalls w' = backendCalls w" "dispatches w' = dispatches w"
    "clock w' = clock w" "toolCache w' = toolCache w" "responseCache w' = responseCache w"
    "\<exists>cs. toolInvocations w' = toolInvocations w @ cs"
  using toolSwitch_outcome [OF assms] by auto

lemma toolSwitch_error:
  "toolSwitch env tn u r p w = (Inr res, w') \<Longrightarrow> errorTruthy res = errorShaped res"
  using toolSwitch_outcome [of env tn u r p w "Inr res" w'] by (cases res) auto

lemma executeTool_hit:
  assumes "toolCache w (toolCacheKey env tn u p) = Some (v, e)" and "clock w \<le> e"
  shows "executeTool env tn u r p w = (Inr v, w\<lparr>dispatches := dispatches w @ [(tn, p)]\<rparr>)"
  using assms by (simp add: executeTool_def getCachedToolResult_eq cacheGet_def)

lemma executeTool_fields:
  assumes "executeTool env tn u r p w = (x, w')"
  shows "backendCalls w' = backendCalls w" "dispatches w' = dispatches w @ [(tn, p)]"
    "clock w' = clock w" "responseCache w' = responseCache w"
proof -
  let ?w = "w\<lparr>dispatches := dispatches w @ [(tn, p)]\<rparr>"
  let ?g = "cacheGet (clock w) (toolCacheKey env tn u p) (toolCache w)"
  let ?w1 = "?w\<lparr>toolCache := snd ?g\<rparr>"
  have "backendCalls w' = backendCalls w \<and> dispatches w' = dispatches w @ [(tn, p)]
      \<and> clock w' = clock w \<and> responseCache w' = responseCache w"
  proof (cases "fst ?g")
    case (Some v)
    with assms have "w' = ?w1"
      by (simp add: executeTool_def getCachedToolResult_eq)
    then show ?thesis by simp
  next
    case None
    obtain y w2 where sw: "toolSwitch env tn u r p ?w1 = (y, w2)"
      by (cases "toolSwitch env tn u r p ?w1")
    note f = toolSwitch_fields [OF sw]
    from assms None sw have "w' = w2 \<or> (\<exists>res. w' = setCachedToolResult env tn u res p w2)"
      by (auto simp: executeTool_def getCachedToolResult_eq split: sum.splits if_splits)
    then show ?thesis
      using f by (auto simp: setCachedToolResult_def)
  qed
  then show "backendCalls w' = backendCalls w" "dispatches w' = dispatches w @ [(tn, p)]"
    "clock w' = clock w" "responseCache w' = responseCache w"
    by simp_all
qed

section \<open>Properties of the orchestrator\<close>

lemma getCachedResponse_fields:
  "backendCalls (snd (getCachedResponse env u m r w)) = backendCalls w"
  "dispatches (snd (getCachedResponse env u m r w)) = dispatches w"
  "toolInvocations (snd (getCachedResponse env u m r w)) = toolInvocations w"
  "clock (snd (getCachedResponse env u m r w)) = clock w"
  "toolCache (snd (getCachedResponse env u m r w)) = toolCache w"
  by (simp_all add: getCachedResponse_eq)

lemma setCachedResponse_fields:
  "backendCalls (setCachedResponse env u m rd r w) = backendCalls w"
  "dispatches (setCachedResponse env u m rd r w) = dispatches w"
  "toolInvocations (setCachedResponse env u m rd r w) = toolInvocations w"
  "clock (setCachedResponse env u m rd r w) = clock w"
  "toolCache (setCachedResponse env u m rd r w) = toolCache w"
  by (simp_all add: setCachedResponse_def)


lemma afterFirstCall_fields:
  "backendCalls (afterFirstCall env usr req w message)
     = backendCalls w @ [firstMessages usr message (req_history req)]"
  "dispatches (afterFirstCall env usr req w message) = dispatches w"
  "toolInvocations (afterFirstCall env usr req w message) = toolInvocations w"
  "clock (afterFirstCall env usr req w message) = clock w"
  by (simp_all add: afterFirstCall_def getCachedResponse_fields)

lemma processRequest_completion:
  assumes "backend env (length (backendCalls w)) (firstMessages usr message history)
             = Response True (Completion c m)"
      and "toolStep env usr message history (strOr c [])
             (w\<lparr>backendCalls := backendCalls w @ [firstMessages usr message history]\<rparr>)
             = (t, w2)"
  shows "processRequest env usr message history w =
           (Inr \<lparr>rd_response = snd (actionStep t), rd_model = strOr m defaultModel,
                 rd_userId = u_id usr, rd_action = fst (actionStep t)\<rparr>,
            setCachedResponse env (u_id usr) message
              \<lparr>rd_response = snd (actionStep t), rd_model = strOr m defaultModel,
                rd_userId = u_id usr, rd_action = fst (actionStep t)\<rparr> (u_role usr) w2)"
  using assms by (simp add: processRequest_def fetch_def Let_def split_def)

lemma chat_completion:
  assumes fc: "firstCompletion env usr req w message c m"
      and ts: "toolStep env usr message (req_history req) (strOr c [])
                 (afterFirstCall env usr req w message) = (t, w2)"
  shows "chat env usr req w =
           (Status200 \<lparr>response = snd (actionStep t), model = strOr m defaultModel,
                       cached = False, action = actionOrNull env (fst (actionStep t))\<rparr>,
            setCachedResponse env (u_id usr) message
              \<lparr>rd_response = snd (actionStep t), rd_model = strOr m defaultModel,
                rd_userId = u_id usr, rd_action = fst (actionStep t)\<rparr> (u_role usr) w2)"
proof -
  obtain g w1 where gc: "getCachedResponse env (u_id usr) message (u_role usr) w = (g, w1)"
    by (cases "getCachedResponse env (u_id usr) message (u_role usr) w")
  from fc gc have msg: "req_message req = Some (JString message)" "message \<noteq> []"
    and miss: "g = None"
    by (simp_all add: firstCompletion_def)
  have w1: "w1 = snd (getCachedResponse env (u_id usr) message (u_role usr) w)"
    using gc by simp
  then have bc: "backendCalls w1 = backendCalls w"
    by (simp add: getCachedResponse_fields)
  from fc bc have be: "backend env (length (backendCalls w1))
      (firstMessages usr message (req_history req)) = Response True (Completion c m)"
    by (simp add: firstCompletion_def)
  from ts w1 bc have ts': "toolStep env usr message (req_history req) (strOr c [])
      (w1\<lparr>backendCalls := backendCalls w1 @ [firstMessages usr message (req_history req)]\<rparr>)
      = (t, w2)"
    by (simp add: afterFirstCall_def)
  show ?thesis
    using msg miss gc processRequest_completion [OF be ts']
    by (simp add: chat_def deduplicateRequest_def)
qed

lemma toolStep_untouched:
  "regexMatch TOOL_CALL t = None \<Longrightarrow> toolStep env usr message history t w = (t, w)"
  by (simp add: toolStep_def)

lemma toolStep_unparsable:
  "regexMatch TOOL_CALL t = Some p \<Longrightarrow> JSON_parse p = None \<Longrightarrow>
     toolStep env usr message history t w = (toolErrorText, w)"
  by (simp add: toolStep_def regexMatch_includes)

lemma regexMatch_parse_object:
  "regexMatch marker t = Some p \<Longrightarrow> JSON_parse p = Some v \<Longrightarrow> isObject v"
  by (auto dest!: regexMatch_shape dest: JSON_parse_brace)

lemma toolStep_dispatched:
  assumes m: "regexMatch TOOL_CALL t = Some p" and pj: "JSON_parse p = Some toolCall"
      and ex: "executeTool env (getProp toolCall (js ''tool'')) (u_id usr) (u_role usr)
                 (paramsOrEmpty env (getProp toolCall (js ''params''))) w = (Inr res, w1)"
  shows "toolStep env usr message history t w =
           ((case backend env (length (backendCalls w1))
                    (followUpMessages usr message history toolCall res) of
               Rejected \<Rightarrow> toolErrorText
             | Response ok b \<Rightarrow>
                 if ok then (case b of Unreadable \<Rightarrow> toolErrorText
                             | Completion c m \<Rightarrow> strOr c noSummaryText)
                 else t),
            w1\<lparr>backendCalls := backendCalls w1
                  @ [followUpMessages usr message history toolCall res]\<rparr>)"
proof -
  from m pj have "isObject toolCall" by (rule regexMatch_parse_object)
  then obtain ms where "toolCall = JObject ms" by (cases toolCall) auto
  with m pj ex show ?thesis
    by (simp add: toolStep_def regexMatch_includes fetch_def
             split: fetch_result.splits body.splits)
qed

lemma toolStep_thrown:
  assumes m: "regexMatch TOOL_CALL t = Some p" and pj: "JSON_parse p = Some toolCall"
      and ex: "executeTool env (getProp toolCall (js ''tool'')) (u_id usr) (u_role usr)
                 (paramsOrEmpty env (getProp toolCall (js ''params''))) w = (Inl e, w1)"
  shows "toolStep env usr message history t w = (toolErrorText, w1)"
proof -
  from m pj have "isObject toolCall" by (rule regexMatch_parse_object)
  then obtain ms where "toolCall = JObject ms" by (cases toolCall) auto
  with m pj ex show ?thesis
    by (simp add: toolStep_def regexMatch_includes)
qed

lemma regexMatch_firstDirective:
  "regexMatch marker t = Some p \<Longrightarrow> firstDirective marker t p"
  unfolding firstDirective_def by (blast dest: regexMatch_matchAt)

lemma toolStep_traces:
  assumes ts: "toolStep env usr message history t w = (t', w')"
  shows "\<exists>calls ds. backendCalls w' = backendCalls w @ calls
           \<and> dispatches w' = dispatches w @ ds
           \<and> length calls \<le> 1 \<and> length ds \<le> 1 \<and> (length calls = 1 \<longrightarrow> length ds = 1)
           \<and> (\<forall>d\<in>set ds. \<exists>p toolCall. regexMatch TOOL_CALL t = Some p
                  \<and> JSON_parse p = Some toolCall
                  \<and> d = (getProp toolCall (js ''tool''),
                         paramsOrEmpty env (getProp toolCall (js ''params''))))"
proof (cases "regexMatch TOOL_CALL t")
  case None
  with ts have "w' = w" by (simp add: toolStep_untouched)
  then have "backendCalls w' = backendCalls w @ [] \<and> dispatches w' = dispatches w @ []"
    by simp
  then show ?thesis by (intro exI [of _ "[]"]) simp
next
  case (Some p)
  show ?thesis
  proof (cases "JSON_parse p")
    case None
    with ts Some have "w' = w" by (simp add: toolStep_unparsable)
    then have "backendCalls w' = backendCalls w @ [] \<and> dispatches w' = dispatches w @ []"
      by simp
    then show ?thesis by (intro exI [of _ "[]"]) simp
  next
    case (Some toolCall)
    let ?d = "(getProp toolCall (js ''tool''),
               paramsOrEmpty env (getProp toolCall (js ''params'')))"
    obtain x w1 where ex: "executeTool env (fst ?d) (u_id usr) (u_role usr) (snd ?d) w = (x, w1)"
      by (cases "executeTool env (fst ?d) (u_id usr) (u_role usr) (snd ?d) w")
    note f = executeTool_fields [OF ex]
    show ?thesis
    proof (cases x)
      case (Inl e)
      with ts \<open>regexMatch TOOL_CALL t = Some p\<close> Some ex have "w' = w1"
        by (simp add: toolStep_thrown)
      with f have "backendCalls w' = backendCalls w @ [] \<and> dispatches w' = dispatches w @ [?d]"
        by simp
      then show ?thesis
        using \<open>regexMatch TOOL_CALL t = Some p\<close> Some
        by (intro exI [of _ "[]"] exI [of _ "[?d]"]) simp
    next
      case (Inr res)
      let ?fu = "followUpMessages usr message history toolCall res"
      from ts \<open>regexMatch TOOL_CALL t = Some p\<close> Some ex Inr
      have "w' = w1\<lparr>backendCalls := backendCalls w1 @ [?fu]\<rparr>"
        by (simp add: toolStep_dispatched)
      with f have "backendCalls w' = backendCalls w @ [?fu]
          \<and> dispatches w' = dispatches w @ [?d]"
        by simp
      then show ?thesis
        using \<open>regexMatch TOOL_CALL t = Some p\<close> Some
        by (intro exI [of _ "[?fu]"] exI [of _ "[?d]"]) simp
    qed
  qed
qed

lemma processRequest_failed:
  assumes "\<forall>c m. backend env (length (backendCalls w)) (firstMessages usr message history)
             \<noteq> Response True (Completion c m)"
  shows "\<exists>e. processRequest env usr message history w =
           (Inl e, w\<lparr>backendCalls := backendCalls w @ [firstMessages usr message history]\<rparr>)"
proof (cases "backend env (length (backendCalls w)) (firstMessages usr message history)")
  case Rejected
  then show ?thesis by (simp add: processRequest_def fetch_def)
next
  case (Response ok b)
  with assms show ?thesis
    by (cases b; cases ok) (auto simp: processRequest_def fetch_def Let_def)
qed

lemma chat_rejected_or_cached_or_failed:
  assumes nc: "\<forall>message c m. \<not> firstCompletion env usr req w message c m"
      and run: "chat env usr req w = (rep, w')"
  shows "dispatches w' = dispatches w
         \<and> (backendCalls w' = backendCalls w
             \<or> (\<exists>ms. backendCalls w' = backendCalls w @ [ms]
                   \<and> (\<forall>c m. backend env (length (backendCalls w)) ms
                               \<noteq> Response True (Completion c m))))"
proof (cases "\<exists>message. req_message req = Some (JString message) \<and> message \<noteq> []")
  case False
  with run have "w' = w"
    by (auto simp: chat_def split: option.splits json.splits if_splits)
  then show ?thesis by simp
next
  case True
  then obtain message where msg: "req_message req = Some (JString message)" "message \<noteq> []"
    by blast
  obtain g w1 where gc: "getCachedResponse env (u_id usr) message (u_role usr) w = (g, w1)"
    by (cases "getCachedResponse env (u_id usr) message (u_role usr) w")
  then have w1: "w1 = snd (getCachedResponse env (u_id usr) message (u_role usr) w)" by simp
  note f = getCachedResponse_fields [of env "u_id usr" message "u_role usr" w, folded w1]
  show ?thesis
  proof (cases g)
    case (Some cachedResponse)
    with run msg gc have "w' = w1" by (simp add: chat_def)
    with f show ?thesis by simp
  next
    case None
    let ?ms = "firstMessages usr message (req_history req)"
    from nc msg gc None have
      nb: "\<forall>c m. backend env (length (backendCalls w)) ?ms \<noteq> Response True (Completion c m)"
      by (auto simp: firstCompletion_def)
    with f have "\<forall>c m. backend env (length (backendCalls w1)) ?ms
        \<noteq> Response True (Completion c m)" by simp
    from processRequest_failed [OF this] obtain e where
      "processRequest env usr message (req_history req) w1 =
         (Inl e, w1\<lparr>backendCalls := backendCalls w1 @ [?ms]\<rparr>)" by blast
    with run msg gc None have "w' = w1\<lparr>backendCalls := backendCalls w1 @ [?ms]\<rparr>"
      by (simp add: chat_def deduplicateRequest_def)
    with f nb show ?thesis by auto
  qed
qed

lemma actionStep_parsedAction: "actionOrNull env (fst (actionStep t)) = parsedAction t"
proof (cases "regexMatch ACTION_COMMAND t")
  case None
  then show ?thesis by (simp add: actionStep_def parsedAction_def actionOrNull_def)
next
  case (Some p)
  then have inc: "includes_str t ACTION_COMMAND" by (rule regexMatch_includes)
  show ?thesis
  proof (cases "JSON_parse p")
    case None
    with Some inc show ?thesis
      by (simp add: actionStep_def parsedAction_def actionOrNull_def)
  next
    case (Some cmd)
    with \<open>regexMatch ACTION_COMMAND t = Some p\<close> have "isObject cmd"
      by (rule regexMatch_parse_object)
    then obtain ms where "cmd = JObject ms" by (cases cmd) auto
    with Some \<open>regexMatch ACTION_COMMAND t = Some p\<close> inc show ?thesis
      by (simp add: actionStep_def parsedAction_def actionOrNull_def)
  qed
qed

lemma actionStep_no_action: "parsedAction t = ActionNull \<Longrightarrow> actionStep t = (None, t)"
  by (auto simp: parsedAction_def actionStep_def split: option.splits)


lemma actionStep_toolErrorText: "actionStep toolErrorText = (None, toolErrorText)"
  by code_simp

section \<open>A matched payload has no nested object\<close>

lemma consChar_rest: "consChar c r = Some (s, rest) \<Longrightarrow> \<exists>s'. r = Some (s', rest)"
  by (cases r) (auto simp: consChar_def)

lemma lexString_suffix: "lexString cs = Some (s, rest) \<Longrightarrow> \<exists>pre. cs = pre @ rest"
proof (induction cs arbitrary: s rule: lexString.induct)
  case 1
  then show ?case by simp
next
  case (2 c)
  then show ?case by (simp split: if_splits)
next
  case (3 c e cs)
  show ?case
  proof (cases "c = 34")
    case True
    with 3(4) have "c # e # cs = [c] @ rest" by simp
    then show ?thesis by blast
  next
    case notq: False
    show ?thesis
    proof (cases "c = 92")
      case bs: True
      show ?thesis
      proof (cases "e = 117")
        case u: True
        from 3(4) notq bs u obtain h1 h2 h3 h4 cs2 a b c' d where
          cs: "cs = h1 # h2 # h3 # h4 # cs2" and
          h: "hexval h1 = Some a" "hexval h2 = Some b" "hexval h3 = Some c'"
             "hexval h4 = Some d" and
          r: "consChar (a * 4096 + b * 256 + c' * 16 + d) (lexString cs2) = Some (s, rest)"
          by (auto split: list.splits option.splits)
        from r obtain s' where "lexString cs2 = Some (s', rest)"
          by (blast dest: consChar_rest)
        from 3(1) [OF notq bs u cs refl refl refl h this] obtain pre where "cs2 = pre @ rest" ..
        with cs have "c # e # cs = (c # e # h1 # h2 # h3 # h4 # pre) @ rest" by simp
        then show ?thesis by blast
      next
        case nu: False
        from 3(4) notq bs nu obtain d where
          d: "unescape e = Some d" and
          r: "consChar d (lexString cs) = Some (s, rest)"
          by (auto split: option.splits)
        from r obtain s' where "lexString cs = Some (s', rest)"
          by (blast dest: consChar_rest)
        from 3(2) [OF notq bs nu d this] obtain pre where "cs = pre @ rest" ..
        then have "c # e # cs = (c # e # pre) @ rest" by simp
        then show ?thesis by blast
      qed
    next
      case nbs: False
      from 3(4) notq nbs have c32: "\<not> c < 32" and
        r: "consChar c (lexString (e # cs)) = Some (s, rest)"
        by (auto split: if_splits)
      from r obtain s' where "lexString (e # cs) = Some (s', rest)"
        by (blast dest: consChar_rest)
      from 3(3) [OF notq nbs c32 this] obtain pre where "e # cs = pre @ rest" ..
      then have "c # e # cs = (c # pre) @ rest" by simp
      then show ?thesis by blast
    qed
  qed
qed

lemma lexExponent_split: "lexExponent s = (ep, rest) \<Longrightarrow> s = ep @ rest"
  by (auto simp: lexExponent_def Let_def split: list.splits if_splits prod.splits)

lemma lexFraction_split: "lexFraction s = (fp, rest) \<Longrightarrow> s = fp @ rest"
  by (auto simp: lexFraction_def split: list.splits if_splits)

lemma lexNumber_split: "lexNumber s = Some (n, rest) \<Longrightarrow> s = n @ rest"
proof -
  assume a: "lexNumber s = Some (n, rest)"
  obtain sign s1 where s1: "(case s of [] \<Rightarrow> ([], s)
      | c # r \<Rightarrow> if c = 45 then ([45::int], r) else ([], s)) = (sign, s1)"
    by (cases "case s of [] \<Rightarrow> ([], s)
      | c # r \<Rightarrow> if c = 45 then ([45::int], r) else ([], s)")
  then have l1: "s = sign @ s1"
    by (auto split: list.splits if_splits)
  from a s1 obtain d r1 where s1c: "s1 = d # r1" and dd: "isDigit d"
    by (cases s1) (auto simp: lexNumber_def split: if_splits)
  obtain ip s2 where ip: "(if d = 48 then ([48::int], r1)
      else (d # takeWhile isDigit r1, dropWhile isDigit r1)) = (ip, s2)"
    by (cases "if d = 48 then ([48::int], r1)
      else (d # takeWhile isDigit r1, dropWhile isDigit r1)")
  then have l2: "d # r1 = ip @ s2"
    by (auto split: if_splits)
  obtain fp s3 where fp: "lexFraction s2 = (fp, s3)"
    by (cases "lexFraction s2")
  obtain ep s4 where ep: "lexExponent s3 = (ep, s4)"
    by (cases "lexExponent s3")
  from a s1 s1c dd ip fp ep have "n = sign @ ip @ fp @ ep" "rest = s4"
    by (simp_all add: lexNumber_def)
  with l1 s1c l2 lexFraction_split [OF fp] lexExponent_split [OF ep]
  show ?thesis by simp
qed

lemma consTok_Some: "consTok t r = Some ts \<Longrightarrow> \<exists>ts'. r = Some ts' \<and> ts = t # ts'"
  by (cases r) (auto simp: consTok_def)

lemma lex_closing_braces:
  "lex s = Some ts \<Longrightarrow> count_list ts TRBrace \<le> count_list s 125"
proof (induction s arbitrary: ts rule: lex.induct)
  case 1
  then show ?case by simp
next
  case (2 c cs)
  consider (ws) "c = 32 \<or> c = 9 \<or> c = 10 \<or> c = 13"
    | (rb) "c = 125"
    | (punct) "c = 123 \<or> c = 91 \<or> c = 93 \<or> c = 58 \<or> c = 44"
    | (str) "c = 34"
    | (num) "c = 45 \<or> isDigit c"
    | (other) "\<not> (c = 32 \<or> c = 9 \<or> c = 10 \<or> c = 13)" "c \<noteq> 125"
        "\<not> (c = 123 \<or> c = 91 \<or> c = 93 \<or> c = 58 \<or> c = 44)" "c \<noteq> 34"
        "\<not> (c = 45 \<or> isDigit c)"
    by blast
  then show ?case
  proof cases
    case ws
    with "2.IH"(1) [of ts] "2.prems" show ?thesis by auto
  next
    case rb
    with "2.prems" obtain ts' where t: "lex cs = Some ts'" "ts = TRBrace # ts'"
      by (auto dest: consTok_Some)
    with "2.IH"(3) [of ts'] rb show ?thesis by simp
  next
    case punct
    with "2.prems" obtain t ts' where t: "lex cs = Some ts'" "ts = t # ts'" "t \<noteq> TRBrace"
      by (auto dest!: consTok_Some split: if_splits)
    from punct have c: "\<not> (c = 32 \<or> c = 9 \<or> c = 10 \<or> c = 13)" "c \<noteq> 125" by auto
    have "count_list ts' TRBrace \<le> count_list cs 125"
      using punct t(1) "2.IH"(2) [of ts'] "2.IH"(4) [of ts'] "2.IH"(5) [of ts'] "2.IH"(6) [of ts'] "2.IH"(7) [of ts']
      by auto
    with t c show ?thesis by simp
  next
    case str
    with "2.prems" obtain x rest ts' where
      l: "lexString cs = Some (x, rest)" and t: "lex rest = Some ts'" "ts = TString x # ts'"
      by (auto dest!: consTok_Some split: option.splits)
    from str have c: "\<not> (c = 32 \<or> c = 9 \<or> c = 10 \<or> c = 13)" "c \<noteq> 123" "c \<noteq> 125"
      "c \<noteq> 91" "c \<noteq> 93" "c \<noteq> 58" "c \<noteq> 44" by auto
    from "2.IH"(8) [OF c str l refl t(1)]
    have "count_list ts' TRBrace \<le> count_list rest 125" .
    moreover from lexString_suffix [OF l] obtain pre where "cs = pre @ rest" ..
    ultimately show ?thesis using t(2) c by simp
  next
    case num
    then have c: "\<not> (c = 32 \<or> c = 9 \<or> c = 10 \<or> c = 13)" "c \<noteq> 123" "c \<noteq> 125"
      "c \<noteq> 91" "c \<noteq> 93" "c \<noteq> 58" "c \<noteq> 44" "c \<noteq> 34"
      by (auto simp: isDigit_def)
    with "2.prems" num obtain x rest ts' where
      l: "lexNumber (c # cs) = Some (x, rest)" and t: "lex rest = Some ts'" "ts = TNumber x # ts'"
      by (auto dest!: consTok_Some split: option.splits)
    from "2.IH"(9) [OF c num l refl t(1)]
    have "count_list ts' TRBrace \<le> count_list rest 125" .
    moreover have "count_list rest 125 \<le> count_list (c # cs) 125"
      using count_list_append [of x rest 125] lexNumber_split [OF l] by simp
    ultimately show ?thesis using t(2) by simp
  next
    case other
    then have c: "\<not> (c = 32 \<or> c = 9 \<or> c = 10 \<or> c = 13)" "c \<noteq> 123" "c \<noteq> 125"
      "c \<noteq> 91" "c \<noteq> 93" "c \<noteq> 58" "c \<noteq> 44" "c \<noteq> 34" "\<not> (c = 45 \<or> isDigit c)"
      by auto
    have d: "count_list (drop n cs) 125 \<le> count_list cs 125" for n
      using count_list_append [of "take n cs" "drop n cs" 125] by simp
    from "2.prems" c obtain t n ts' where t: "lex (drop n cs) = Some ts'" "ts = t # ts'"
        "t \<noteq> TRBrace"
      and w: "(startsWith (c # cs) (js ''true'') \<and> n = 3)
            \<or> (\<not> startsWith (c # cs) (js ''true'') \<and> startsWith (c # cs) (js ''false'') \<and> n = 4)
            \<or> (\<not> startsWith (c # cs) (js ''true'') \<and> \<not> startsWith (c # cs) (js ''false'')
                \<and> startsWith (c # cs) (js ''null'') \<and> n = 3)"
      by (auto dest!: consTok_Some split: if_splits)
    have "count_list ts' TRBrace \<le> count_list (drop n cs) 125"
      using w t(1) "2.IH"(10) [OF c, of ts'] "2.IH"(11) [OF c, of ts'] "2.IH"(12) [OF c, of ts']
      by auto
    with d [of n] t(2,3) c show ?thesis by simp
  qed
qed

lemma parse_objectCount:
  "parseValue st ts = Some r \<longrightarrow>
     objectCount r \<le> sum_list (map frameObjects st) + count_list ts TRBrace"
  "parseKey acc st ts = Some r \<longrightarrow>
     objectCount r \<le> sum_list (map snd (map (map_prod id objectCount) acc))
       + sum_list (map frameObjects st) + count_list ts TRBrace"
  "parseAfter v st ts = Some r \<longrightarrow>
     objectCount r \<le> objectCount v + sum_list (map frameObjects st) + count_list ts TRBrace"
proof (induction st ts and acc st ts and v st ts rule: parseValue_parseKey_parseAfter.induct)
  case (1 st)
  then show ?case by simp
next
  case (2 st t ts)
  show ?case
  proof (cases t)
    case TLBrace
    show ?thesis
    proof (cases "nextIs TRBrace ts")
      case True
      then obtain ts' where ts: "ts = TRBrace # ts'"
        by (cases ts) (auto simp: nextIs_def)
      from 2(1) [OF TLBrace True] ts TLBrace True show ?thesis by (simp add: ac_simps)
    next
      case False
      from 2(2) [OF TLBrace False] TLBrace False show ?thesis by (simp add: ac_simps)
    qed
  next
    case TLBrack
    show ?thesis
    proof (cases "nextIs TRBrack ts")
      case True
      then obtain ts' where ts: "ts = TRBrack # ts'"
        by (cases ts) (auto simp: nextIs_def)
      from 2(3) [OF TLBrack True] ts TLBrack True show ?thesis by (simp add: ac_simps)
    next
      case False
      from 2(4) [OF TLBrack False] TLBrack False show ?thesis by (simp add: ac_simps)
    qed
  next
    case (TString x)
    from 2(5) [OF this] TString show ?thesis by (simp add: ac_simps)
  next
    case (TNumber x)
    from 2(6) [OF this] TNumber show ?thesis by (simp add: ac_simps)
  next
    case TTrue
    from 2(7) [OF this] TTrue show ?thesis by (simp add: ac_simps)
  next
    case TFalse
    from 2(8) [OF this] TFalse show ?thesis by (simp add: ac_simps)
  next
    case TNull
    from 2(9) [OF this] TNull show ?thesis by (simp add: ac_simps)
  qed simp_all
next
  case (3 acc st)
  then show ?case by simp
next
  case (4 acc st t)
  then show ?case by simp
next
  case (5 acc st t t' ts)
  show ?case
  proof (cases "\<exists>k. t = TString k \<and> t' = TColon")
    case True
    then obtain k where k: "t = TString k" "t' = TColon" by blast
    from 5 [OF refl k] k show ?thesis by (simp add: ac_simps)
  next
    case False
    then have "parseKey acc st (t # t' # ts) = None"
      by (cases t; cases t') auto
    then show ?thesis by (simp add: ac_simps)
  qed
next
  case (6 v ts)
  then show ?case by simp
next
  case (7 v f st)
  then show ?case by simp
next
  case (8 v f st t ts)
  show ?case
  proof (cases f)
    case (InArray a)
    show ?thesis
    proof (cases "t = TComma")
      case True
      from 8(2) [OF refl InArray True] InArray True show ?thesis by (simp add: ac_simps)
    next
      case nc: False
      show ?thesis
      proof (cases "t = TRBrack")
        case True
        from 8(1) [OF refl InArray True] InArray True show ?thesis by (simp add: ac_simps)
      next
        case False
        with nc InArray have "parseAfter v (f # st) (t # ts) = None"
          by (cases t) auto
        then show ?thesis by (simp add: ac_simps)
      qed
    qed
  next
    case (InObject a k)
    show ?thesis
    proof (cases "t = TComma")
      case True
      from 8(4) [OF refl InObject True] InObject True show ?thesis by (simp add: ac_simps)
    next
      case nc: False
      show ?thesis
      proof (cases "t = TRBrace")
        case True
        from 8(3) [OF refl InObject True] InObject True show ?thesis by (simp add: ac_simps)
      next
        case False
        with nc InObject have "parseAfter v (f # st) (t # ts) = None"
          by (cases t) auto
        then show ?thesis by (simp add: ac_simps)
      qed
    qed
  qed
qed

lemma member_objectCount:
  "(k, x) \<in> set ms \<Longrightarrow>
     objectCount x \<le> sum_list (map snd (map (map_prod id objectCount) ms))"
  by (induction ms) auto

lemma isObject_objectCount: "isObject x \<Longrightarrow> 0 < objectCount x"
  by (cases x) auto

lemma payload_members_flat:
  assumes m: "regexMatch marker t = Some p" and pj: "JSON_parse p = Some v"
      and g: "getProp v k = Some x"
  shows "\<not> isObject x"
proof -
  from m obtain body where p: "p = 123 # body @ [125]" "125 \<notin> set body"
    by (blast dest: regexMatch_shape)
  then have c: "count_list p 125 = 1" by simp
  from pj obtain ts where ts: "lex p = Some ts" "parseValue [] ts = Some v"
    by (auto simp: JSON_parse_def split: option.splits)
  from lex_closing_braces [OF ts(1)] c have "count_list ts TRBrace \<le> 1" by simp
  with parse_objectCount(1) [of "[]" ts v] ts(2) have oc: "objectCount v \<le> 1" by simp
  from m pj have "isObject v" by (rule regexMatch_parse_object)
  then obtain ms where v: "v = JObject ms" by (cases v) auto
  with g have mem: "(k, x) \<in> set ms" by (auto dest: map_of_SomeD)
  from oc v have "sum_list (map snd (map (map_prod id objectCount) ms)) \<le> 0"
    by (simp del: map_map)
  with member_objectCount [OF mem] have "objectCount x = 0" by linarith
  then show ?thesis using isObject_objectCount [of x] by auto
qed

lemma getProp_not_object: "\<not> isObject x \<Longrightarrow> getProp x k = None"
  by (cases x) auto

lemma payload_params_have_no_member:
  assumes "regexMatch marker t = Some p" and "JSON_parse p = Some v"
  shows "getProp (paramsOrEmpty env (getProp v (js ''params''))) k = None"
proof (cases "getProp v (js ''params'')")
  case None
  then show ?thesis by (simp add: paramsOrEmpty_def)
next
  case (Some x)
  with assms have "\<not> isObject x" by (blast dest: payload_members_flat)
  then have "getProp x k = None" by (rule getProp_not_object)
  with Some show ?thesis by (simp add: paramsOrEmpty_def)
qed

lemma toolSwitch_thrown:
  "toolSwitch env tn u r p w = (Inl e, w') \<Longrightarrow>
     getOnboardingHelp (getProp p (js ''topic'')) w = (Inl e, w')"
  by (auto simp: toolSwitch_def returned_def split: if_splits)

lemma getOnboardingHelp_undefined: "getOnboardingHelp None w \<noteq> (Inl e, w')"
  by (simp add: getOnboardingHelp_def Let_def)

lemma executeTool_thrown:
  assumes "executeTool env tn u r p w = (Inl e, w')"
  shows "getProp p (js ''topic'') \<noteq> None"
proof
  assume n: "getProp p (js ''topic'') = None"
  from assms obtain w1 w2 where "toolSwitch env tn u r p w1 = (Inl e, w2)"
    by (auto simp: executeTool_def Let_def split: prod.splits option.splits sum.splits if_splits)
  from toolSwitch_thrown [OF this] n show False
    by (simp add: getOnboardingHelp_undefined)
qed

lemma turn_tool_never_throws:
  assumes "regexMatch marker t = Some p" and "JSON_parse p = Some toolCall"
  shows "executeTool env tn u r (paramsOrEmpty env (getProp toolCall (js ''params''))) w
           \<noteq> (Inl e, w')"
  using payload_params_have_no_member [OF assms] by (blast dest: executeTool_thrown)

section \<open>The tool result cache\<close>

text \<open>
  Claim C7. \<^verbatim>\<open>executeTool\<close> writes its result to the tool result cache exactly when
  the result is not error-shaped. Starting from a cache that holds no error-shaped
  result: after a call that returned \<open>result\<close>, the cache holds \<open>result\<close> under the
  key of (tool name, user, parameters), unexpired, if and only if \<open>result\<close> has no
  \<^verbatim>\<open>error\<close> field; after an error-shaped result the key holds nothing; a result
  computed on a miss is stored with the lifetime \<open>toolTTL\<close>; no other key changes; the
  cache stays free of error-shaped results; and a repeated call with the same tool name,
  user and parameters at any time up to the expiry returns the same result without
  calling a tool function.
\<close>

theorem executeTool_caches_exactly_the_successes:
  assumes run: "executeTool env toolName userId userRole params w = (Inr result, w')"
      and clean: "cacheClean w"
  shows "((\<exists>e. toolCache w' (toolCacheKey env toolName userId params) = Some (result, e)
              \<and> clock w \<le> e)
           \<longleftrightarrow> \<not> errorShaped result)
         \<and> (errorShaped result \<longrightarrow>
               toolCache w' (toolCacheKey env toolName userId params) = None)
         \<and> (fst (getCachedToolResult env toolName userId params w) = None
               \<and> \<not> errorShaped result \<longrightarrow>
               toolCache w' (toolCacheKey env toolName userId params)
                 = Some (result, clock w + toolTTL env))
         \<and> (\<forall>k. k \<noteq> toolCacheKey env toolName userId params \<longrightarrow>
               toolCache w' k = toolCache w k)
         \<and> cacheClean w'
         \<and> (\<forall>e t. toolCache w' (toolCacheKey env toolName userId params) = Some (result, e)
               \<and> t \<le> e \<longrightarrow>
               fst (executeTool env toolName userId userRole params (w'\<lparr>clock := t\<rparr>))
                 = Inr result
               \<and> toolInvocations
                   (snd (executeTool env toolName userId userRole params (w'\<lparr>clock := t\<rparr>)))
                 = toolInvocations w')"
proof -
  let ?key = "toolCacheKey env toolName userId params"
  let ?w = "w\<lparr>dispatches := dispatches w @ [(toolName, params)]\<rparr>"
  let ?g = "cacheGet (clock w) ?key (toolCache w)"
  let ?w1 = "?w\<lparr>toolCache := snd ?g\<rparr>"
  have again: "\<forall>e t. toolCache w' ?key = Some (result, e) \<and> t \<le> e \<longrightarrow>
      fst (executeTool env toolName userId userRole params (w'\<lparr>clock := t\<rparr>)) = Inr result
      \<and> toolInvocations
            (snd (executeTool env toolName userId userRole params (w'\<lparr>clock := t\<rparr>)))
          = toolInvocations w'"
  proof (intro allI impI)
    fix e t
    assume a: "toolCache w' ?key = Some (result, e) \<and> t \<le> e"
    then have a1: "toolCache (w'\<lparr>clock := t\<rparr>) ?key = Some (result, e)"
      and a2: "clock (w'\<lparr>clock := t\<rparr>) \<le> e" by simp_all
    have "executeTool env toolName userId userRole params (w'\<lparr>clock := t\<rparr>)
        = (Inr result, (w'\<lparr>clock := t\<rparr>)
             \<lparr>dispatches := dispatches (w'\<lparr>clock := t\<rparr>) @ [(toolName, params)]\<rparr>)"
      by (rule executeTool_hit [OF a1 a2])
    then show "fst (executeTool env toolName userId userRole params (w'\<lparr>clock := t\<rparr>))
        = Inr result
      \<and> toolInvocations
            (snd (executeTool env toolName userId userRole params (w'\<lparr>clock := t\<rparr>)))
          = toolInvocations w'" by simp
  qed
  obtain g c where g: "?g = (g, c)" by (cases ?g)
  note cg = cacheGet_cases [OF g]
  show ?thesis
  proof (cases g)
    case (Some v)
    with cg obtain e where hit: "c = toolCache w" "toolCache w ?key = Some (v, e)" "clock w \<le> e"
      by auto
    from run Some g have r: "result = v" "w' = ?w1"
      by (simp_all add: executeTool_def getCachedToolResult_eq)
    from hit clean have ne: "\<not> errorShaped v" by (auto simp: cacheClean_def)
    have tc: "toolCache w' = toolCache w" using r g hit by simp
    from tc clean have "cacheClean w'" by (simp add: cacheClean_def)
    with again r hit ne tc g Some show ?thesis
      by (auto simp: getCachedToolResult_eq)
  next
    case None
    with cg have miss: "c ?key = None" "\<forall>k. k \<noteq> ?key \<longrightarrow> c k = toolCache w k"
      by auto
    have clean1: "\<forall>k v e. c k = Some (v, e) \<longrightarrow> \<not> errorShaped v"
    proof (intro allI impI)
      fix k v e assume "c k = Some (v, e)"
      with miss have "toolCache w k = Some (v, e)" by (cases "k = ?key") auto
      with clean show "\<not> errorShaped v" by (auto simp: cacheClean_def)
    qed
    obtain y w2 where sw: "toolSwitch env toolName userId userRole params ?w1 = (y, w2)"
      by (cases "toolSwitch env toolName userId userRole params ?w1")
    from run None g sw have y: "y = Inr result"
      by (auto simp: executeTool_def getCachedToolResult_eq split: sum.splits if_splits)
    note f = toolSwitch_fields [OF sw]
    from sw y have et: "errorTruthy result = errorShaped result"
      by (auto dest: toolSwitch_error)
    from f g have tc2: "toolCache w2 = c" "clock w2 = clock w" by simp_all
    show ?thesis
    proof (cases "errorShaped result")
      case True
      with run None g sw y et have "w' = w2"
        by (simp add: executeTool_def getCachedToolResult_eq)
      with tc2 miss clean1 True again None g show ?thesis
        by (auto simp: cacheClean_def getCachedToolResult_eq)
    next
      case False
      with run None g sw y et have w': "w' = setCachedToolResult env toolName userId result params w2"
        by (simp add: executeTool_def getCachedToolResult_eq)
      then have tc': "toolCache w' = c(?key \<mapsto> (result, clock w + toolTTL env))"
        using tc2 by (simp add: setCachedToolResult_def cachePut_def)
      have "cacheClean w'"
        using tc' clean1 False by (auto simp: cacheClean_def)
      with tc' miss False again show ?thesis
        by (auto simp: getCachedToolResult_eq)
    qed
  qed
qed


theorem executeTool_caches_exactly_the_successes_witness:
  "toolCache
     (snd (executeTool (demoEnv [] (Some 40)) (Some (JString (js ''getLoggedHours'')))
             (js ''u1'') (js ''employee'') (JObject []) emptyWorld))
     (demoToolKey (Some (JString (js ''getLoggedHours''))) (js ''u1'') (JObject []))
   = Some (Payload 40, 5)
   \<and> fst (executeTool (demoEnv [] (Some 40)) (Some (JString (js ''getLoggedHours'')))
            (js ''u1'') (js ''employee'') (JObject [])
            ((snd (executeTool (demoEnv [] (Some 40)) (Some (JString (js ''getLoggedHours'')))
                     (js ''u1'') (js ''employee'') (JObject []) emptyWorld))\<lparr>clock := 3\<rparr>))
     = Inr (Payload 40)
   \<and> toolInvocations
        (snd (executeTool (demoEnv [] (Some 40)) (Some (JString (js ''getLoggedHours'')))
                (js ''u1'') (js ''employee'') (JObject [])
                ((snd (executeTool (demoEnv [] (Some 40))
                         (Some (JString (js ''getLoggedHours'')))
                         (js ''u1'') (js ''employee'') (JObject []) emptyWorld))
                   \<lparr>clock := 3\<rparr>)))
     = toolInvocations
         (snd (executeTool (demoEnv [] (Some 40)) (Some (JString (js ''getLoggedHours'')))
                 (js ''u1'') (js ''employee'') (JObject []) emptyWorld))"
proof -
  let ?env = "demoEnv [] (Some 40)"
  let ?tn = "Some (JString (js ''getLoggedHours''))"
  let ?run = "executeTool ?env ?tn (js ''u1'') (js ''employee'') (JObject []) emptyWorld"
  have "fst ?run = Inr (Payload 40)" by code_simp
  then have run: "?run = (Inr (Payload 40), snd ?run)" by (metis prod.collapse)
  have clean: "cacheClean emptyWorld" by (simp add: cacheClean_def emptyWorld_def)
  have miss: "fst (getCachedToolResult ?env ?tn (js ''u1'') (JObject []) emptyWorld) = None"
    by code_simp
  have key: "toolCacheKey ?env = demoToolKey" by (simp add: demoEnv_def)
  have ttl: "clock emptyWorld + toolTTL ?env = 5" by (simp add: demoEnv_def emptyWorld_def)
  note t = executeTool_caches_exactly_the_successes [OF run clean]
  from t miss have stored: "toolCache (snd ?run)
      (toolCacheKey ?env ?tn (js ''u1'') (JObject [])) = Some (Payload 40, 5)"
    using ttl by simp
  moreover from t stored have
    "fst (executeTool ?env ?tn (js ''u1'') (js ''employee'') (JObject [])
            ((snd ?run)\<lparr>clock := 3\<rparr>)) = Inr (Payload 40)
     \<and> toolInvocations (snd (executeTool ?env ?tn (js ''u1'') (js ''employee'') (JObject [])
            ((snd ?run)\<lparr>clock := 3\<rparr>))) = toolInvocations (snd ?run)"
    by simp
  ultimately show ?thesis using key by simp
qed

section \<open>The claims about a turn\<close>




text \<open>
  Claim C2 says that a turn which met a tool-level or backend-level error never writes
  its response to the conversation cache, so that the same request asked again makes a
  real backend attempt. Line 1479 writes the response of every turn that did not throw.
  First installation: the summarization request fails with a non-2xx status; the first
  completion is answered and cached, and the same question asked at once is answered from
  the cache (\<^verbatim>\<open>cached: true\<close>) without a request to the backend. Second installation:
  the data query fails; the answer that summarizes the failure is cached and replayed,
  and the tool is not tried again.
\<close>

theorem failed_turn_is_cached_and_replayed:
  "fst outageFirst
       = Status200 \<lparr>response = flatDirective, model = defaultModel, cached = False,
                    action = ActionNull\<rparr>
   \<and> length (backendCalls (snd outageFirst)) = 2
   \<and> fst outageSecond
       = Status200 \<lparr>response = flatDirective, model = defaultModel, cached = True,
                    action = ActionAbsent\<rparr>
   \<and> length (backendCalls (snd outageSecond)) = 2
   \<and> fst brokenToolFirst
       = Status200 \<lparr>response = js ''Sorry, I could not read your hours.'',
                    model = defaultModel, cached = False, action = ActionNull\<rparr>
   \<and> toolInvocations (snd brokenToolFirst)
       = [Call (js ''getLoggedHours'') [Some (JString (js ''u1'')), Some (JString (js ''week''))]]
   \<and> fst brokenToolSecond
       = Status200 \<lparr>response = js ''Sorry, I could not read your hours.'',
                    model = defaultModel, cached = True, action = ActionAbsent\<rparr>
   \<and> length (backendCalls (snd brokenToolSecond)) = 2
   \<and> length (toolInvocations (snd brokenToolSecond)) = 1"
  by code_simp

text \<open>
  Claim C3 says that with an unparsable tool payload the turn completes on the
  completion text with the directive marker stripped and the surrounding text untouched.
  Here the completion is \<^verbatim>\<open>Hello TOOL_CALL: {oops} there\<close>: the response is the fixed
  apology of the \<^verbatim>\<open>catch\<close> block, and neither \<^verbatim>\<open>Hello\<close> nor \<^verbatim>\<open>there\<close> is
  left in it.
\<close>

theorem surrounding_text_is_discarded:
  "fst garbledTurn
       = Status200 \<lparr>response = toolErrorText, model = defaultModel, cached = False,
                    action = ActionNull\<rparr>
   \<and> \<not> includes_str toolErrorText (js ''Hello'')
   \<and> \<not> includes_str toolErrorText (js ''there'')"
  by code_simp

text \<open>
  Claim C3, as the code has it. When the completion contains the tool-call marker and
  no payload after it parses, no error is raised: the turn ends with status 200 after
  the one backend request and without a call of \<^verbatim>\<open>executeTool\<close>. When the pattern
  matched a brace-delimited payload (which then failed to parse), the response text is
  the fixed apology and \<^verbatim>\<open>action\<close> is \<^verbatim>\<open>null\<close>. When the marker is followed by no
  brace-delimited payload, the completion goes on to the action step as it is, marker
  included; it is the response text unchanged when it holds no parseable action
  directive.
\<close>

theorem unparsable_tool_directive_is_survived:
  assumes fc: "firstCompletion env usr req w message c m"
      and marker: "includes_str (strOr c []) TOOL_CALL"
      and bad: "\<forall>p. regexMatch TOOL_CALL (strOr c []) = Some p \<longrightarrow> JSON_parse p = None"
  shows "\<exists>body w'. chat env usr req w = (Status200 body, w')
           \<and> backendCalls w' = backendCalls w @ [firstMessages usr message (req_history req)]
           \<and> dispatches w' = dispatches w
           \<and> (regexMatch TOOL_CALL (strOr c []) \<noteq> None \<longrightarrow>
                 body = \<lparr>response = toolErrorText, model = strOr m defaultModel,
                          cached = False, action = ActionNull\<rparr>)
           \<and> (regexMatch TOOL_CALL (strOr c []) = None \<longrightarrow>
                 body = \<lparr>response = snd (actionStep (strOr c [])),
                          model = strOr m defaultModel, cached = False,
                          action = parsedAction (strOr c [])\<rparr>
                 \<and> (parsedAction (strOr c []) = ActionNull \<longrightarrow> response body = strOr c []))"
proof -
  let ?t = "strOr c []"
  let ?w1 = "afterFirstCall env usr req w message"
  have ts: "toolStep env usr message (req_history req) ?t ?w1
      = (if regexMatch TOOL_CALL ?t = None then ?t else toolErrorText, ?w1)"
    using bad by (cases "regexMatch TOOL_CALL ?t") (simp_all add: toolStep_untouched toolStep_unparsable)
  have na: "parsedAction toolErrorText = ActionNull"
    using actionStep_parsedAction [of env toolErrorText]
    by (simp add: actionStep_toolErrorText actionOrNull_def)
  show ?thesis
    using chat_completion [OF fc ts] na
    by (auto simp: setCachedResponse_fields afterFirstCall_fields actionStep_parsedAction
          actionStep_toolErrorText actionStep_no_action)
qed

theorem unparsable_tool_directive_is_survived_witness:
  "fst garbledTurn
     = Status200 \<lparr>response = toolErrorText, model = defaultModel, cached = False,
                  action = ActionNull\<rparr>
   \<and> length (backendCalls (snd garbledTurn)) = 1
   \<and> dispatches (snd garbledTurn) = []"
proof -
  let ?env = "demoEnv [says ''Hello TOOL_CALL: {oops} there''] None"
  let ?c = "Some (js ''Hello TOOL_CALL: {oops} there'')"
  have fc: "firstCompletion ?env employee (ask ''hi'') emptyWorld (js ''hi'') ?c None"
    by code_simp
  have marker: "includes_str (strOr ?c []) TOOL_CALL" by code_simp
  have dm: "regexMatch TOOL_CALL (strOr ?c []) = Some (js ''{oops}'')" by code_simp
  have "JSON_parse (js ''{oops}'') = None" by code_simp
  with dm have bad: "\<forall>p. regexMatch TOOL_CALL (strOr ?c []) = Some p \<longrightarrow> JSON_parse p = None"
    by simp
  have m: "strOr None defaultModel = defaultModel" by (simp add: strOr_def)
  have e: "backendCalls emptyWorld = [] \<and> dispatches emptyWorld = []"
    by (simp add: emptyWorld_def)
  from unparsable_tool_directive_is_survived [OF fc marker bad] dm m e
  show ?thesis by (auto simp: garbledTurn_def)
qed

text \<open>
  Claim C4: the scenario of the weekly hours. The backend answers with the directive
  \<^verbatim>\<open>TOOL_CALL: {"tool": "getLoggedHours", "params": {"period": "week"}}\<close>, the format
  the system prompt prescribes. The pattern \<^verbatim>\<open>\{[^}]+\}\<close> stops at the first closing
  brace, so the captured payload lacks the outer one and \<^verbatim>\<open>JSON.parse\<close> throws: the
  response is the apology, one backend request was made, no tool was dispatched and no
  summarization request was issued. The whole directive is well-formed JSON.
\<close>

theorem prompted_directive_is_never_parsed:
  \<open>fst weekHoursTurn
       = Status200 \<lparr>response = toolErrorText, model = defaultModel, cached = False,
                    action = ActionNull\<rparr>
   \<and> length (backendCalls (snd weekHoursTurn)) = 1
   \<and> dispatches (snd weekHoursTurn) = []
   \<and> toolInvocations (snd weekHoursTurn) = []
   \<and> regexMatch TOOL_CALL promptedDirective
       = Some (js ''{"tool": "getLoggedHours", "params": {"period": "week"}'')
   \<and> JSON_parse (js ''{"tool": "getLoggedHours", "params": {"period": "week"}'') = None
   \<and> JSON_parse (js ''{"tool": "getLoggedHours", "params": {"period": "week"}}'')
       = Some (JObject [(js ''tool'', JString (js ''getLoggedHours'')),
                        (js ''params'', JObject [(js ''period'', JString (js ''week''))])])\<close>
  by code_simp

text \<open>
  Claim C5 says that when the tool execution of a turn fails, the turn is not aborted and
  a marker that the tool result is unavailable is fed to the summarization request. The
  eighteen tool functions that read data themselves do return an error-shaped object
  \<^verbatim>\<open>{ error: ... }\<close> when a query throws, and the turn sends it as
  \<^verbatim>\<open>TOOL_RESULT\<close>: so it is in the installation with the failing data query above.
  \<^verbatim>\<open>suggestCorrections\<close> (lines 702 to 756) does not: the four functions it calls
  catch their own failures, its \<^verbatim>\<open>catch\<close> is never entered, and it returns the
  object of a successful check. Here every data query fails and the first completion is
  \<^verbatim>\<open>TOOL_CALL: {"tool": "suggestCorrections"}\<close>: the four queries of the turn are
  made and fail, the summarization request carries the object with no suggestions (the
  message \<^verbatim>\<open>No issues found! Your timesheets look great.\<close>), which is not
  error-shaped, that object is written to the tool cache, and the answer built on it is
  the response.
\<close>

theorem failed_corrections_are_summarized_as_no_issues:
  \<open>fst correctionsTurn
       = Status200 \<lparr>response = js ''Your timesheets look great.'', model = defaultModel,
                    cached = False, action = ActionNull\<rparr>
   \<and> toolInvocations (snd correctionsTurn)
       = [Call (js ''suggestCorrections'') [Some (JString (js ''u1''))],
          Call (js ''detectIncompleteEntries'')
            [Some (JString (js ''u1'')), Some (JString (js ''week''))],
          Call (js ''detectOverlappingHours'')
            [Some (JString (js ''u1'')), Some (JString (js ''week''))],
          Call (js ''checkOvertimeLimits'')
            [Some (JString (js ''u1'')), Some (JString (js ''month''))],
          Call (js ''checkMissingHours'')
            [Some (JString (js ''u1'')), Some (JString (js ''week''))]]
   \<and> map (\<lambda>i. dataQuery correctionsEnv i (toolInvocations (snd correctionsTurn) ! i))
         [1, 2, 3, 4]
       = [None, None, None, None]
   \<and> backendCalls (snd correctionsTurn)
       = [firstMessages employee (js ''Is anything wrong with my timesheets?'') [],
          followUpMessages employee (js ''Is anything wrong with my timesheets?'') []
            (JObject [(js ''tool'', JString (js ''suggestCorrections''))])
            (Corrections [None, None, None, None])]
   \<and> last (backendCalls (snd correctionsTurn) ! 1)
       = Message (js ''user'') (ToolResultPrompt (Corrections [None, None, None, None]))
   \<and> \<not> errorShaped (Corrections [None, None, None, None] :: int tool_result)
   \<and> fst (getCachedToolResult correctionsEnv (Some (JString (js ''suggestCorrections'')))
             (js ''u1'') (JObject []) (snd correctionsTurn))
       = Some (Corrections [None, None, None, None])
   \<and> last (backendCalls (snd brokenToolFirst) ! 1)
       = Message (js ''user'')
           (ToolResultPrompt (ErrorResult (js ''Failed to get logged hours'')))\<close>
  by code_simp

text \<open>
  Claim C6 says that every response, on the cache-hit path too, has the field
  \<^verbatim>\<open>action\<close>. Lines 1372 to 1376 build the cache-hit response from \<^verbatim>\<open>response\<close>,
  \<^verbatim>\<open>model\<close> and \<^verbatim>\<open>cached\<close> only. Here the dashboard question is asked twice: the
  first response carries the allow-listed command, the cache entry holds it, and the
  second response has no \<^verbatim>\<open>action\<close> field.
\<close>

theorem cached_response_has_no_action_field:
  "fst dashboardFirst
       = Status200 \<lparr>response = js ''Opening your dashboard.'', model = defaultModel,
                    cached = False, action = ActionCommand dashboardCommand\<rparr>
   \<and> gateAccepts dashboardCommand
   \<and> fst dashboardSecond
       = Status200 \<lparr>response = js ''Opening your dashboard.'', model = defaultModel,
                    cached = True, action = ActionAbsent\<rparr>
   \<and> map_option rd_action
         (fst (getCachedResponse dashboardEnv (js ''u1'') (js ''Open my dashboard'')
                 (js ''employee'') (snd dashboardFirst)))
       = Some (Some dashboardCommand)"
  by code_simp

text \<open>
  Claim C8. In every turn at most two requests go to the backend and \<^verbatim>\<open>executeTool\<close>
  is called at most once; a second request is made only when \<^verbatim>\<open>executeTool\<close> was
  called; and the tool directive that is honoured is the first one: the leftmost match of
  the tool pattern in the text of the first completion.
\<close>

theorem chat_one_directive_two_backend_calls:
  assumes run: "chat env usr req w = (rep, w')"
  shows "\<exists>calls ds. backendCalls w' = backendCalls w @ calls
           \<and> dispatches w' = dispatches w @ ds
           \<and> length calls \<le> 2 \<and> length ds \<le> 1 \<and> (length calls = 2 \<longrightarrow> length ds = 1)
           \<and> (\<forall>d\<in>set ds. \<exists>c m p toolCall.
                  calls \<noteq> []
                  \<and> backend env (length (backendCalls w)) (hd calls)
                      = Response True (Completion c m)
                  \<and> firstDirective TOOL_CALL (strOr c []) p
                  \<and> JSON_parse p = Some toolCall
                  \<and> d = (getProp toolCall (js ''tool''),
                         paramsOrEmpty env (getProp toolCall (js ''params''))))"
proof (cases "\<exists>message c m. firstCompletion env usr req w message c m")
  case False
  from chat_rejected_or_cached_or_failed [OF _ run] False
  have d: "dispatches w' = dispatches w @ []"
    and b: "backendCalls w' = backendCalls w @ []
            \<or> (\<exists>ms. backendCalls w' = backendCalls w @ [ms])"
    by auto
  from b show ?thesis
  proof
    assume "backendCalls w' = backendCalls w @ []"
    with d show ?thesis by (intro exI [of _ "[]"]) simp
  next
    assume "\<exists>ms. backendCalls w' = backendCalls w @ [ms]"
    then obtain ms where "backendCalls w' = backendCalls w @ [ms]" ..
    with d show ?thesis by (intro exI [of _ "[ms]"] exI [of _ "[]"]) simp
  qed
next
  case True
  then obtain message c m where fc: "firstCompletion env usr req w message c m" by blast
  let ?first = "firstMessages usr message (req_history req)"
  let ?w1 = "afterFirstCall env usr req w message"
  obtain t w2 where ts: "toolStep env usr message (req_history req) (strOr c []) ?w1 = (t, w2)"
    by (cases "toolStep env usr message (req_history req) (strOr c []) ?w1")
  from toolStep_traces [OF ts] obtain calls ds where
    tr: "backendCalls w2 = backendCalls ?w1 @ calls" "dispatches w2 = dispatches ?w1 @ ds"
      "length calls \<le> 1" "length ds \<le> 1" "length calls = 1 \<longrightarrow> length ds = 1"
      "\<forall>d\<in>set ds. \<exists>p toolCall. regexMatch TOOL_CALL (strOr c []) = Some p
          \<and> JSON_parse p = Some toolCall
          \<and> d = (getProp toolCall (js ''tool''),
                 paramsOrEmpty env (getProp toolCall (js ''params'')))"
    by blast
  from chat_completion [OF fc ts] run have
    w': "backendCalls w' = backendCalls w2" "dispatches w' = dispatches w2"
    by (auto simp: setCachedResponse_fields)
  have be: "backend env (length (backendCalls w)) ?first = Response True (Completion c m)"
    using fc by (simp add: firstCompletion_def)
  have 1: "backendCalls w' = backendCalls w @ (?first # calls)"
    using w' tr(1) by (simp add: afterFirstCall_fields)
  have 2: "dispatches w' = dispatches w @ ds"
    using w' tr(2) by (simp add: afterFirstCall_fields)
  have 3: "\<forall>d\<in>set ds. \<exists>c m p toolCall.
      ?first # calls \<noteq> []
      \<and> backend env (length (backendCalls w)) (hd (?first # calls))
          = Response True (Completion c m)
      \<and> firstDirective TOOL_CALL (strOr c []) p
      \<and> JSON_parse p = Some toolCall
      \<and> d = (getProp toolCall (js ''tool''),
             paramsOrEmpty env (getProp toolCall (js ''params'')))"
  proof
    fix d assume "d \<in> set ds"
    with tr(6) obtain p toolCall where
      "regexMatch TOOL_CALL (strOr c []) = Some p" "JSON_parse p = Some toolCall"
      "d = (getProp toolCall (js ''tool''),
            paramsOrEmpty env (getProp toolCall (js ''params'')))" by blast
    with be show "\<exists>c m p toolCall.
      ?first # calls \<noteq> []
      \<and> backend env (length (backendCalls w)) (hd (?first # calls))
          = Response True (Completion c m)
      \<and> firstDirective TOOL_CALL (strOr c []) p
      \<and> JSON_parse p = Some toolCall
      \<and> d = (getProp toolCall (js ''tool''),
             paramsOrEmpty env (getProp toolCall (js ''params'')))"
      by (auto dest: regexMatch_firstDirective)
  qed
  from tr(3,4,5) have 4: "length (?first # calls) \<le> 2 \<and> length ds \<le> 1
      \<and> (length (?first # calls) = 2 \<longrightarrow> length ds = 1)" by auto
  show ?thesis
    using 1 2 3 4 by (intro exI [of _ "?first # calls"] exI [of _ ds]) blast
qed

theorem chat_one_directive_two_backend_calls_witness:
  "length (backendCalls (snd outageFirst)) \<le> 2
   \<and> length (dispatches (snd outageFirst)) \<le> 1
   \<and> length (backendCalls (snd outageFirst)) = 2
   \<and> dispatches (snd outageFirst) = [(Some (JString (js ''getLoggedHours'')), JObject [])]"
proof -
  have run: "chat outageEnv employee hoursQuestion emptyWorld = (fst outageFirst, snd outageFirst)"
    by (simp add: outageFirst_def)
  have e: "backendCalls emptyWorld = [] \<and> dispatches emptyWorld = []"
    by (simp add: emptyWorld_def)
  have v: "length (backendCalls (snd outageFirst)) = 2
      \<and> dispatches (snd outageFirst) = [(Some (JString (js ''getLoggedHours'')), JObject [])]"
    by code_simp
  from chat_one_directive_two_backend_calls [OF run] e v
  show ?thesis by auto
qed




end
